theory Spec2Isabelle
  imports Complex_Main
begin

section \<open>JavaScript values\<close>

text \<open>
  The two source files are JavaScript. Numbers are IEEE doubles; the model keeps the
  three special values apart and treats every finite value as an exact real (rounding,
  overflow and the sign of zero are not modelled). Division is written out the way
  JavaScript evaluates it: it never raises, a zero denominator gives \<open>NaN\<close> or an
  infinity.
\<close>

datatype error = TypeError

datatype jsnum = Fin real | PosInf | NegInf | NaN

fun jsneg :: "jsnum \<Rightarrow> jsnum" where
  "jsneg (Fin a) = Fin (- a)"
| "jsneg PosInf = NegInf"
| "jsneg NegInf = PosInf"
| "jsneg NaN = NaN"

fun jsadd :: "jsnum \<Rightarrow> jsnum \<Rightarrow> jsnum" where
  "jsadd (Fin a) (Fin b) = Fin (a + b)"
| "jsadd (Fin a) PosInf = PosInf"
| "jsadd (Fin a) NegInf = NegInf"
| "jsadd PosInf (Fin b) = PosInf"
| "jsadd PosInf PosInf = PosInf"
| "jsadd NegInf (Fin b) = NegInf"
| "jsadd NegInf NegInf = NegInf"
| "jsadd PosInf NegInf = NaN"
| "jsadd NegInf PosInf = NaN"
| "jsadd NaN b = NaN"
| "jsadd a NaN = NaN"

definition jssub :: "jsnum \<Rightarrow> jsnum \<Rightarrow> jsnum" where
  "jssub a b = jsadd a (jsneg b)"

fun jsdiv :: "jsnum \<Rightarrow> jsnum \<Rightarrow> jsnum" where
  "jsdiv (Fin a) (Fin b) =
     (if b \<noteq> 0 then Fin (a / b)
      else if a = 0 then NaN
      else if 0 < a then PosInf else NegInf)"
| "jsdiv (Fin a) PosInf = Fin 0"
| "jsdiv (Fin a) NegInf = Fin 0"
| "jsdiv PosInf (Fin b) = (if 0 \<le> b then PosInf else NegInf)"
| "jsdiv NegInf (Fin b) = (if 0 \<le> b then NegInf else PosInf)"
| "jsdiv PosInf PosInf = NaN"
| "jsdiv PosInf NegInf = NaN"
| "jsdiv NegInf PosInf = NaN"
| "jsdiv NegInf NegInf = NaN"
| "jsdiv NaN b = NaN"
| "jsdiv a NaN = NaN"

text \<open>\<open>Math.max\<close> of two numbers: \<open>NaN\<close> as soon as one argument is.\<close>

fun jsmax :: "jsnum \<Rightarrow> jsnum \<Rightarrow> jsnum" where
  "jsmax (Fin a) (Fin b) = Fin (max a b)"
| "jsmax NaN b = NaN"
| "jsmax a NaN = NaN"
| "jsmax PosInf b = PosInf"
| "jsmax a PosInf = PosInf"
| "jsmax NegInf b = b"
| "jsmax a NegInf = a"

fun isFinite :: "jsnum \<Rightarrow> bool" where
  "isFinite (Fin a) = True"
| "isFinite a = False"

text \<open>A number used as a condition: \<open>0\<close> and \<open>NaN\<close> are falsy.\<close>

fun numTruthy :: "jsnum \<Rightarrow> bool" where
  "numTruthy (Fin a) = (a \<noteq> 0)"
| "numTruthy NaN = False"
| "numTruthy a = True"

text \<open>
  The values a property of a plain object can hold here: \<open>undefined\<close>, a number, a
  string, or a reference to some other object (opaque).
\<close>

datatype jsval = Undefined | Num jsnum | Str string | Ref nat

fun truthy :: "jsval \<Rightarrow> bool" where
  "truthy Undefined = False"
| "truthy (Num n) = numTruthy n"
| "truthy (Str s) = (s \<noteq> [])"
| "truthy (Ref r) = True"

text \<open>A keyed bag: the own properties of a plain object.\<close>

type_synonym jsobject = "string \<rightharpoonup> jsval"

text \<open>\<open>obj[prop]\<close>: a missing property reads as \<open>undefined\<close>.\<close>

definition jsget :: "jsobject \<Rightarrow> string \<Rightarrow> jsval" where
  "jsget obj prop = (case obj prop of None \<Rightarrow> Undefined | Some v \<Rightarrow> v)"

section \<open>Dimensions.js\<close>

text \<open>
  An instance of class \<open>Dimensions\<close>. \<open>unit\<close>, \<open>_managedProps\<close> and \<open>prev\<close> are its
  three fixed properties; \<open>props\<close> holds every other own property (\<open>this[prop]\<close>).
  \<open>_managedProps\<close> is a JavaScript \<open>Set\<close>, kept as the list of its elements in
  insertion order. \<open>prev\<close> is \<open>None\<close> while the property is undefined and
  \<open>Some m\<close> when it holds a plain object with own properties \<open>m\<close>; every
  assignment to it in the class is a fresh \<open>{}\<close>, so no two instances share one.
\<close>

record Dimensions =
  unit :: string
  managedProps :: "string list"
  props :: jsobject
  prev :: "jsobject option"

definition allowedProps :: "string list" where
  "allowedProps =
     [''x'', ''y'', ''z'', ''height'', ''width'', ''margin'', ''top'', ''right'',
      ''bottom'', ''left'']"

text \<open>\<open>Set.prototype.add\<close>: an element already present keeps its place.\<close>

definition setAdd :: "string list \<Rightarrow> string \<Rightarrow> string list" where
  "setAdd s e = (if e \<in> set s then s else s @ [e])"

text \<open>\<open>this.prev[prop] = v\<close> on the object \<open>prev\<close> holds.\<close>

definition prevAssign :: "Dimensions \<Rightarrow> string \<Rightarrow> jsval \<Rightarrow> Dimensions" where
  "prevAssign d prop v =
     d\<lparr>prev := (case prev d of None \<Rightarrow> None | Some m \<Rightarrow> Some (m(prop \<mapsto> v)))\<rparr>"

text \<open>
  The loop of \<open>initFrom\<close> over \<open>Dimensions.allowedProps\<close>. \<open>prop in obj\<close> is
  membership in the keys of \<open>obj\<close>.
\<close>

fun initLoop :: "jsobject \<Rightarrow> bool \<Rightarrow> string list \<Rightarrow> Dimensions \<Rightarrow> Dimensions" where
  "initLoop obj initPrev [] d = d"
| "initLoop obj initPrev (prop # rest) d =
     initLoop obj initPrev rest
       (case obj prop of
          None \<Rightarrow> d
        | Some v \<Rightarrow>
            let d1 = d\<lparr>managedProps := setAdd (managedProps d) prop\<rparr>;
                d2 = d1\<lparr>props := (props d1)(prop \<mapsto> v)\<rparr>
            in if initPrev then prevAssign d2 prop (Num (Fin 0)) else d2)"

definition initFrom :: "Dimensions \<Rightarrow> jsobject \<Rightarrow> string \<Rightarrow> bool \<Rightarrow> Dimensions" where
  "initFrom this obj u initPrev =
     (let d1 = this\<lparr>unit := u\<rparr>;
          d2 = d1\<lparr>managedProps := []\<rparr>;
          d3 = (if initPrev then d2\<lparr>prev := Some Map.empty\<rparr> else d2)
      in initLoop obj initPrev allowedProps d3)"

text \<open>The object \<open>new\<close> hands to the constructor: no property is defined yet.\<close>

definition blank :: Dimensions where
  "blank = \<lparr>unit = [], managedProps = [], props = Map.empty, prev = None\<rparr>"

text \<open>\<open>new Dimensions(obj, unit)\<close>, and with the default unit \<open>'px'\<close>.\<close>

definition newDimensions :: "jsobject \<Rightarrow> string \<Rightarrow> Dimensions" where
  "newDimensions obj u = initFrom blank obj u True"

definition newDimensionsPx :: "jsobject \<Rightarrow> Dimensions" where
  "newDimensionsPx obj = newDimensions obj ''px''"

text \<open>
  \<open>for (const prop of v)\<close> asks \<open>v\<close> for its iterator. A plain object has none and
  \<open>undefined\<close> has none either, so for every value \<open>prev\<close> can hold the statement
  raises \<open>TypeError\<close> before the first iteration; the result would be the list of
  the elements to iterate over.
\<close>

fun forOfElements :: "jsobject option \<Rightarrow> error + string list" where
  "forOfElements None = Inl TypeError"
| "forOfElements (Some m) = Inl TypeError"

fun copyLoop :: "jsobject \<Rightarrow> string list \<Rightarrow> Dimensions \<Rightarrow> Dimensions" where
  "copyLoop src [] d = d"
| "copyLoop src (prop # rest) d = copyLoop src rest (prevAssign d prop (jsget src prop))"

text \<open>
  \<open>copyFrom(other)\<close>. \<open>other\<close> is read as a keyed bag through \<open>props\<close>: none of
  its three fixed property names is in \<open>allowedProps\<close>. The result is the receiver
  as the call leaves it, and the exception the call ends with, if any.
\<close>

definition copyFrom :: "Dimensions \<Rightarrow> Dimensions \<Rightarrow> Dimensions \<times> error option" where
  "copyFrom this other =
     (let d1 = initFrom this (props other) (unit other) False;
          d2 = d1\<lparr>prev := Some Map.empty\<rparr>
      in case forOfElements (prev other) of
           Inl e \<Rightarrow> (d2, Some e)
         | Inr ps \<Rightarrow>
             (copyLoop (case prev other of None \<Rightarrow> Map.empty | Some m \<Rightarrow> m) ps d2, None))"

text \<open>The loop of \<open>preserve\<close> over the elements of \<open>_managedProps\<close>.\<close>

fun preserveLoop :: "string list \<Rightarrow> Dimensions \<Rightarrow> Dimensions" where
  "preserveLoop [] d = d"
| "preserveLoop (prop # rest) d = preserveLoop rest (prevAssign d prop (jsget (props d) prop))"

definition preserve :: "Dimensions \<Rightarrow> Dimensions" where
  "preserve this = preserveLoop (managedProps this) (this\<lparr>prev := Some Map.empty\<rparr>)"

section \<open>OmLayout.js\<close>

subsection \<open>The tree, its nodes, and the layout object\<close>

text \<open>
  Tree nodes are objects that the layout reaches through references (\<open>parent\<close>,
  \<open>parentComponent\<close>, \<open>filterParent\<close>, \<open>zoomedElement\<close>) and mutates in place. A
  reference is a node identifier, the objects live in a store from identifiers to
  node records, and the finite shape of the tree (each node's \<open>children\<close> array) is a
  datatype over identifiers.

  Class \<open>OmTreeNode\<close> is not part of these sources. What its methods return
  (\<open>isVisible()\<close>, \<open>isVisibleLeaf()\<close>, \<open>isInput()\<close>, \<open>isInputOrOutput()\<close>) and whether
  \<open>node instanceof OmTreeNode\<close> holds are attributes of the node record; the layout
  code does not change what they depend on. \<open>hasChildren()\<close> is a non-empty
  \<open>children\<close> array.
\<close>

type_synonym nid = nat

datatype tree = Tree (nodeId: nid) (children: "tree list")

record OmTreeNode =
  instanceofOmTreeNode :: bool
  depth :: nat
  nodeType :: string
  parent :: "nid option"
  parentComponent :: "nid option"
  subsystem_children :: bool
  isVisible :: bool
  isVisibleLeaf :: bool
  isInput :: bool
  isInputOrOutput :: bool
  minimized :: bool
  filtered :: bool
  filterParent :: "nid option"
  numLeaves :: jsnum
  dims :: Dimensions
  solverDims :: Dimensions

record Column =
  width :: jsnum
  location :: jsnum

text \<open>
  Modelled from the spec: class \<open>Scale\<close> is not part of these sources. It is a pair
  of linear mappings \<open>x\<close> and \<open>y\<close>, each with a domain and a range of two numbers,
  and \<open>preserve()\<close> keeps a copy of both as the previous value.
\<close>

record LinearScale =
  scaleDomain :: "jsnum \<times> jsnum"
  scaleRange :: "jsnum \<times> jsnum"

record Scale =
  scaleX :: LinearScale
  scaleY :: LinearScale
  scalePrev :: "(LinearScale \<times> LinearScale) option"

definition scalePreserve :: "Scale \<Rightarrow> Scale" where
  "scalePreserve s = s\<lparr>scalePrev := Some (scaleX s, scaleY s)\<rparr>"

text \<open>
  The layout object together with the model it refers to. \<open>size.partitionTree.width\<close>,
  \<open>size.solverTree.width\<close>, \<open>size.solverTree.height\<close> and \<open>size.parentNodeWidth\<close> are the
  four sizes the code reads; \<open>scales\<close> and \<open>transitCoords\<close> are objects keyed by the
  tree's name.
\<close>

record Layout =
  nodes :: "nid \<Rightarrow> OmTreeNode"
  root :: tree
  maxDepth :: nat
  zoomedElement :: nid
  showSolvers :: bool
  zoomedSolverNodes :: "nid list"
  visibleSolverNodes :: "nid list"
  cols :: "Column list"
  solverCols :: "Column list"
  leafSolverWidthsPx :: "jsnum list"
  greatestDepth :: nat
  partitionTreeWidth :: jsnum
  solverTreeWidth :: jsnum
  solverTreeHeight :: jsnum
  parentNodeWidth :: jsnum
  scales :: "string \<rightharpoonup> Scale"
  transitCoords :: "string \<rightharpoonup> Dimensions"

text \<open>
  The base class \<open>Layout\<close> is not part of these sources either. The methods of it
  that \<open>OmLayout\<close> calls are parameters of the model: each takes the layout and
  returns the layout it leaves, or the exception it raises.
\<close>

record Base =
  superInit :: "Layout \<Rightarrow> error + Layout"
  setColumnWidthsFromWidestText :: "Layout \<Rightarrow> nid \<Rightarrow> error + Layout"
  setColumnLocations :: "Layout \<Rightarrow> error + Layout"
  superPreservePreviousScaleValues :: "Layout \<Rightarrow> error + Layout"
  superUpdateScaleValues :: "Layout \<Rightarrow> error + Layout"
  newScale :: "jsnum \<Rightarrow> jsnum \<Rightarrow> Scale"

text \<open>A number read out of a value (unary conversion); only numbers and \<open>undefined\<close>
  occur in the coordinates the layout reads, anything else is read as \<open>NaN\<close>.\<close>

fun toNumber :: "jsval \<Rightarrow> jsnum" where
  "toNumber (Num n) = n"
| "toNumber v = NaN"

text \<open>\<open>arr[i].field\<close>: outside the array \<open>arr[i]\<close> is \<open>undefined\<close> and reading or
  writing a property of it raises \<open>TypeError\<close>.\<close>

definition colAt :: "Column list \<Rightarrow> nat \<Rightarrow> error + Column" where
  "colAt cs i = (if i < length cs then Inr (cs ! i) else Inl TypeError)"

definition setColWidth :: "Column list \<Rightarrow> nat \<Rightarrow> jsnum \<Rightarrow> error + Column list" where
  "setColWidth cs i w =
     (if i < length cs then Inr (cs[i := (cs ! i)\<lparr>width := w\<rparr>]) else Inl TypeError)"

subsection \<open>\_computeSolverColumnWidths\<close>

text \<open>
  The loop \<open>for (let i = leafSolverWidthsPx.length - 1; i >= zoomedElement.depth; --i)\<close>;
  the result is \<open>lastColumnWidth\<close>. Reading \<open>leafSolverWidthsPx[i]\<close> past the end
  gives \<open>undefined\<close>, which the subtraction turns into \<open>NaN\<close>.
\<close>

definition leafAt :: "jsnum list \<Rightarrow> nat \<Rightarrow> jsnum" where
  "leafAt ls i = (if i < length ls then ls ! i else NaN)"

function lastColumnLoop ::
  "Column list \<Rightarrow> jsnum list \<Rightarrow> nat \<Rightarrow> int \<Rightarrow> jsnum \<Rightarrow> jsnum \<Rightarrow> error + jsnum" where
  "lastColumnLoop cs ls zd i sumW lastColumnWidth =
     (if int zd \<le> i then
        (case colAt cs (nat i) of
           Inl e \<Rightarrow> Inl e
         | Inr c \<Rightarrow>
             let sumW' = jsadd sumW (width c);
                 lastWidthNeeded = jssub (leafAt ls (nat i)) sumW'
             in lastColumnLoop cs ls zd (i - 1) sumW' (jsmax lastWidthNeeded lastColumnWidth))
      else Inr lastColumnWidth)"
  by pat_completeness auto
termination
  by (relation "measure (\<lambda>(cs, ls, zd, i, sumW, l). nat (i - int zd + 1))") auto

declare lastColumnLoop.simps [simp del]

definition computeSolverColumnWidths :: "Base \<Rightarrow> Layout \<Rightarrow> nid \<Rightarrow> error + Layout" where
  "computeSolverColumnWidths B this node =
     (let L1 = this\<lparr>greatestDepth := 0\<rparr>;
          L2 = L1\<lparr>leafSolverWidthsPx := replicate (maxDepth L1 + 1) (Fin 0)\<rparr>;
          L3 = L2\<lparr>solverCols :=
                 replicate (maxDepth L2 + 1) \<lparr>width = Fin 0, location = Fin 0\<rparr>\<rparr>
      in case setColumnWidthsFromWidestText B L3 node of
           Inl e \<Rightarrow> Inl e
         | Inr L4 \<Rightarrow>
            (let zd = depth (nodes L4 (zoomedElement L4)) in
             case lastColumnLoop (solverCols L4) (leafSolverWidthsPx L4) zd
                    (int (length (leafSolverWidthsPx L4)) - 1) (Fin 0) (Fin 0) of
               Inl e \<Rightarrow> Inl e
             | Inr lastColumnWidth \<Rightarrow>
                 if zd = 0 then Inl TypeError
                 else
                   (case setColWidth (solverCols L4) (zd - 1) (parentNodeWidth L4) of
                      Inl e \<Rightarrow> Inl e
                    | Inr cs1 \<Rightarrow>
                       (case setColWidth cs1 (greatestDepth L4) lastColumnWidth of
                          Inl e \<Rightarrow> Inl e
                        | Inr cs2 \<Rightarrow> Inr (L4\<lparr>solverCols := cs2\<rparr>)))))"

subsection \<open>\_computeSolverNormalizedPositions\<close>

definition rootId :: "Layout \<Rightarrow> nid" where
  "rootId L = nodeId (root L)"

definition updNode :: "Layout \<Rightarrow> nid \<Rightarrow> (OmTreeNode \<Rightarrow> OmTreeNode) \<Rightarrow> Layout" where
  "updNode L n f = L\<lparr>nodes := (nodes L)(n := f (nodes L n))\<rparr>"

text \<open>\<open>node.draw.solverDims[prop] = v\<close>.\<close>

definition setSolverDim :: "Layout \<Rightarrow> nid \<Rightarrow> string \<Rightarrow> jsval \<Rightarrow> Layout" where
  "setSolverDim L n prop v =
     updNode L n (\<lambda>nd. nd\<lparr>solverDims := (solverDims nd)\<lparr>props := (props (solverDims nd))(prop \<mapsto> v)\<rparr>\<rparr>)"

text \<open>
  Modelled from the spec: \<open>OmTreeNode.preserveDims\<close> is not part of these sources.
  Called with \<open>solver = true\<close> it takes the snapshot of the node's solver rectangle,
  \<open>draw.solverDims.preserve()\<close>.
\<close>

definition preserveDims :: "Layout \<Rightarrow> nid \<Rightarrow> Layout" where
  "preserveDims L n = updNode L n (\<lambda>nd. nd\<lparr>solverDims := preserve (solverDims nd)\<rparr>)"

text \<open>The test \<open>node.type.match(/^(subsystem|root)$/)\<close>.\<close>

definition isSubsystemOrRoot :: "string \<Rightarrow> bool" where
  "isSubsystemOrRoot t = (t = ''subsystem'' \<or> t = ''root'')"

text \<open>
  The block guarded by \<open>earliestMinimizedParent == null && isChildOfZoomed\<close>: it
  appends to the two node lists and may set \<open>earliestMinimizedParent\<close>.
\<close>

definition enterNode :: "Layout \<Rightarrow> nid \<Rightarrow> bool \<Rightarrow> nid option \<Rightarrow> Layout \<times> nid option" where
  "enterNode L n isChildOfZoomed earliestMinimizedParent =
     (if earliestMinimizedParent = None \<and> isChildOfZoomed then
        (let node = nodes L n;
             L1 = (if isSubsystemOrRoot (nodeType node)
                   then L\<lparr>zoomedSolverNodes := zoomedSolverNodes L @ [n]\<rparr> else L)
         in if isVisibleLeaf node then
              ((if \<not> isInput node
                then L1\<lparr>visibleSolverNodes := visibleSolverNodes L1 @ [n]\<rparr> else L1),
               Some n)
            else if filtered node then (L1, filterParent node)
            else (L1, earliestMinimizedParent))
      else (L, earliestMinimizedParent))"

text \<open>The branch for a node that is not visible (lines 150 to 156).\<close>

definition hiddenDims :: "Layout \<Rightarrow> nid \<Rightarrow> error + Layout" where
  "hiddenDims L n =
     (case parentComponent (nodes L n) of
        None \<Rightarrow> Inl TypeError
      | Some pc \<Rightarrow>
         (case colAt (cols L) (depth (nodes L pc) + 1) of
            Inl e \<Rightarrow> Inl e
          | Inr c \<Rightarrow>
             let L1 = setSolverDim L n ''x'' (Num (jsdiv (location c) (partitionTreeWidth L)));
                 L2 = setSolverDim L1 n ''y'' (jsget (props (dims (nodes L1 pc))) ''y'');
                 L3 = setSolverDim L2 n ''width'' (Num (Fin (1 / 1000000)));
                 L4 = setSolverDim L3 n ''height'' (Num (Fin (1 / 1000000)))
             in Inr L4))"

text \<open>The branch for a visible node (lines 157 to 165); \<open>w\<close> is \<open>workNode\<close>.\<close>

definition visibleDims :: "Layout \<Rightarrow> nid \<Rightarrow> jsnum \<Rightarrow> nid \<Rightarrow> error + Layout" where
  "visibleDims L n leafCounter w =
     (case colAt (solverCols L) (depth (nodes L w)) of
        Inl e \<Rightarrow> Inl e
      | Inr c \<Rightarrow>
         let L1 = setSolverDim L n ''x'' (Num (jsdiv (location c) (solverTreeWidth L)));
             L2 = setSolverDim L1 n ''y''
                    (Num (jsdiv leafCounter (numLeaves (nodes L1 (rootId L1)))));
             L3 = setSolverDim L2 n ''width''
                    (Num (if subsystem_children (nodes L2 n) \<and> \<not> minimized (nodes L2 n)
                          then jsdiv (width c) (solverTreeWidth L2)
                          else jssub (Fin 1)
                                 (toNumber (jsget (props (solverDims (nodes L2 w))) ''x''))));
             L4 = setSolverDim L3 n ''height''
                    (Num (jsdiv (numLeaves (nodes L3 w)) (numLeaves (nodes L3 (rootId L3)))))
         in Inr L4)"

definition assignSolverDims :: "Layout \<Rightarrow> nid \<Rightarrow> jsnum \<Rightarrow> nid \<Rightarrow> error + Layout" where
  "assignSolverDims L n leafCounter w =
     (if \<not> isVisible (nodes L n) then hiddenDims L n else visibleDims L n leafCounter w)"

text \<open>
  The recursive walk, and the loop over \<open>node.children\<close>. The walk returns the
  layout it leaves, or the exception that ends it.
\<close>

fun computeSolverNormalizedPositions ::
    "Layout \<Rightarrow> tree \<Rightarrow> jsnum \<Rightarrow> bool \<Rightarrow> nid option \<Rightarrow> error + Layout"
  and childrenLoop ::
    "Layout \<Rightarrow> tree list \<Rightarrow> jsnum \<Rightarrow> bool \<Rightarrow> nid option \<Rightarrow> error + Layout"
where
  "computeSolverNormalizedPositions L (Tree n kids) leafCounter isChildOfZoomed
       earliestMinimizedParent =
     (if \<not> instanceofOmTreeNode (nodes L n) then Inr L
      else
        let isChildOfZoomed' =
              (if \<not> isChildOfZoomed then n = zoomedElement L else isChildOfZoomed);
            entered = enterNode L n isChildOfZoomed' earliestMinimizedParent;
            L2 = preserveDims (fst entered) n;
            workNode = (case snd entered of Some p \<Rightarrow> p | None \<Rightarrow> n)
        in case assignSolverDims L2 n leafCounter workNode of
             Inl e \<Rightarrow> Inl e
           | Inr L3 \<Rightarrow> childrenLoop L3 kids leafCounter isChildOfZoomed' (snd entered))"
| "childrenLoop L [] leafCounter isChildOfZoomed earliestMinimizedParent = Inr L"
| "childrenLoop L (child # rest) leafCounter isChildOfZoomed earliestMinimizedParent =
     (if \<not> isInputOrOutput (nodes L (nodeId child)) \<or> \<not> minimized (nodes L (nodeId child))
      then
        (case computeSolverNormalizedPositions L child leafCounter isChildOfZoomed
                (case filterParent (nodes L (nodeId child)) of
                   Some p \<Rightarrow> Some p
                 | None \<Rightarrow> earliestMinimizedParent) of
           Inl e \<Rightarrow> Inl e
         | Inr L' \<Rightarrow>
             childrenLoop L' rest
               (if earliestMinimizedParent = None
                then jsadd leafCounter (numLeaves (nodes L' (nodeId child)))
                else leafCounter)
               isChildOfZoomed earliestMinimizedParent)
      else childrenLoop L rest leafCounter isChildOfZoomed earliestMinimizedParent)"

subsection \<open>\_init, preservePreviousScaleValues, updateScaleValues\<close>

definition init :: "Base \<Rightarrow> Layout \<Rightarrow> error + Layout" where
  "init B this =
     (case superInit B this of
        Inl e \<Rightarrow> Inl e
      | Inr L0 \<Rightarrow>
         (case
            (if showSolvers L0 then
               (case computeSolverColumnWidths B L0 (zoomedElement L0) of
                  Inl e \<Rightarrow> Inl e
                | Inr L1 \<Rightarrow>
                   (case setColumnLocations B L1 of
                      Inl e \<Rightarrow> Inl e
                    | Inr L2 \<Rightarrow>
                       (case computeSolverNormalizedPositions L2 (root L2) (Fin 0) False None of
                          Inl e \<Rightarrow> Inl e
                        | Inr L3 \<Rightarrow>
                           let L4 = (case parent (nodes L3 (zoomedElement L3)) of
                                       Some p \<Rightarrow> L3\<lparr>zoomedSolverNodes := zoomedSolverNodes L3 @ [p]\<rparr>
                                     | None \<Rightarrow> L3)
                           in Inr (L4\<lparr>scales := (scales L4)(''solver'' \<mapsto>
                                      newScale B (solverTreeWidth L4) (solverTreeHeight L4))\<rparr>))))
             else Inr L0) of
            Inl e \<Rightarrow> Inl e
          | Inr L5 \<Rightarrow>
              Inr (L5\<lparr>transitCoords := (transitCoords L5)(''solver'' \<mapsto>
                     newDimensionsPx [''x'' \<mapsto> Num (Fin 0), ''y'' \<mapsto> Num (Fin 0)])\<rparr>)))"

definition preservePreviousScaleValues :: "Base \<Rightarrow> Layout \<Rightarrow> error + Layout" where
  "preservePreviousScaleValues B this =
     (case superPreservePreviousScaleValues B this of
        Inl e \<Rightarrow> Inl e
      | Inr L1 \<Rightarrow>
         (case transitCoords L1 ''solver'' of
            None \<Rightarrow> Inl TypeError
          | Some tc \<Rightarrow>
             let L2 = L1\<lparr>transitCoords := (transitCoords L1)(''solver'' \<mapsto> preserve tc)\<rparr>
             in (case scales L2 ''solver'' of
                   None \<Rightarrow> Inl TypeError
                 | Some sc \<Rightarrow> Inr (L2\<lparr>scales := (scales L2)(''solver'' \<mapsto> scalePreserve sc)\<rparr>))))"

definition updateScaleValues :: "Base \<Rightarrow> Layout \<Rightarrow> error + Layout" where
  "updateScaleValues B this =
     (case superUpdateScaleValues B this of
        Inl e \<Rightarrow> Inl e
      | Inr L1 \<Rightarrow>
         let elemDims = props (solverDims (nodes L1 (zoomedElement L1)));
             ex = jsget elemDims ''x'';
             ey = jsget elemDims ''y'';
             eh = jsget elemDims ''height''
         in (case transitCoords L1 ''solver'' of
               None \<Rightarrow> Inl TypeError
             | Some tc \<Rightarrow>
                let tc1 = tc\<lparr>props := (props tc)(''x'' \<mapsto>
                            Num (jsdiv (if truthy ex
                                        then jssub (solverTreeWidth L1) (parentNodeWidth L1)
                                        else solverTreeWidth L1)
                                       (jssub (Fin 1) (toNumber ex))))\<rparr>;
                    tc2 = tc1\<lparr>props := (props tc1)(''y'' \<mapsto>
                            Num (jsdiv (solverTreeHeight L1) (toNumber eh)))\<rparr>;
                    L2 = L1\<lparr>transitCoords := (transitCoords L1)(''solver'' \<mapsto> tc2)\<rparr>
                in (case scales L2 ''solver'' of
                      None \<Rightarrow> Inl TypeError
                    | Some sc \<Rightarrow>
                       let sx = (scaleX sc)\<lparr>scaleDomain := (toNumber ex, Fin 1),
                                  scaleRange := (if truthy ex then parentNodeWidth L2 else Fin 0,
                                                 solverTreeWidth L2)\<rparr>;
                           sy = (scaleY sc)\<lparr>scaleDomain := (toNumber ey, jsadd (toNumber ey) (toNumber eh)),
                                  scaleRange := (Fin 0, solverTreeHeight L2)\<rparr>
                       in Inr (L2\<lparr>scales := (scales L2)(''solver'' \<mapsto>
                                  sc\<lparr>scaleX := sx, scaleY := sy\<rparr>)\<rparr>))))"

section \<open>Definitions used to state the properties\<close>

text \<open>The real number a finite JavaScript number stands for.\<close>

fun realOf :: "jsnum \<Rightarrow> real" where
  "realOf (Fin a) = a"
| "realOf a = 0"

text \<open>
  The column-width adjustment in the words of the specification: the shortfall at depth
  \<open>i\<close> is the per-leaf width requirement of that depth minus the running sum of the
  column widths from the deepest level down to \<open>i\<close>, and the last column receives the
  largest shortfall over the depths from the focus depth on, or \<open>0\<close> when every
  shortfall is negative.
\<close>

definition shortfallAt :: "real list \<Rightarrow> real list \<Rightarrow> nat \<Rightarrow> real" where
  "shortfallAt ws ls i = ls ! i - (\<Sum>j\<leftarrow>[i..<length ls]. ws ! j)"

definition largestShortfall :: "real list \<Rightarrow> real list \<Rightarrow> nat \<Rightarrow> real" where
  "largestShortfall ws ls zd = Max (set (0 # map (shortfallAt ws ls) [zd..<length ls]))"

text \<open>
  What the solver walk never writes: a node without its solver rectangle, and a layout
  without the solver rectangles and the two node lists the walk appends to. Two layouts
  with the same erasure differ in nothing else.
\<close>

definition eraseNode :: "OmTreeNode \<Rightarrow> OmTreeNode" where
  "eraseNode nd = nd\<lparr>solverDims := blank\<rparr>"

definition erase :: "Layout \<Rightarrow> Layout" where
  "erase L = L\<lparr>nodes := (\<lambda>n. eraseNode (nodes L n)), zoomedSolverNodes := [],
               visibleSolverNodes := []\<rparr>"

text \<open>All nodes of a tree, and the nodes the walk gets to: it returns at once on a node
  that is no \<open>OmTreeNode\<close>, and it does not descend into a child that is a minimized
  input or output.\<close>

fun treeIds :: "tree \<Rightarrow> nid list" where
  "treeIds (Tree n kids) = n # concat (map treeIds kids)"

fun visited :: "(nid \<Rightarrow> OmTreeNode) \<Rightarrow> tree \<Rightarrow> nid list"
  and visitedChildren :: "(nid \<Rightarrow> OmTreeNode) \<Rightarrow> tree list \<Rightarrow> nid list" where
  "visited N (Tree n kids) =
     (if instanceofOmTreeNode (N n) then n # visitedChildren N kids else [])"
| "visitedChildren N [] = []"
| "visitedChildren N (child # rest) =
     (if \<not> isInputOrOutput (N (nodeId child)) \<or> \<not> minimized (N (nodeId child))
      then visited N child @ visitedChildren N rest
      else visitedChildren N rest)"

text \<open>The rectangle of a node that is not visible: at the column after its parent
  component's depth in the primary tree, at the parent component's primary \<open>y\<close>, one
  millionth wide and high.\<close>

definition hiddenRect :: "Layout \<Rightarrow> nid \<Rightarrow> Dimensions \<Rightarrow> bool" where
  "hiddenRect L n sd \<longleftrightarrow>
     (\<exists>pc c. parentComponent (nodes L n) = Some pc
        \<and> colAt (cols L) (depth (nodes L pc) + 1) = Inr c
        \<and> props sd ''x'' = Some (Num (jsdiv (location c) (partitionTreeWidth L)))
        \<and> props sd ''y'' = Some (jsget (props (dims (nodes L pc))) ''y'')
        \<and> props sd ''width'' = Some (Num (Fin (1 / 1000000)))
        \<and> props sd ''height'' = Some (Num (Fin (1 / 1000000))))"







text \<open>
  Leaf counts as the specification describes them (the number of visible leaf
  descendants): a finite count that is not negative; the children the walk descends
  into, and among them the visible ones; and, along an itinerary, a node visited without
  anchor has the sum of the counts of the children the walk descends into, of which
  those that are not visible count zero.
\<close>

definition leaves :: "Layout \<Rightarrow> nid \<Rightarrow> real" where
  "leaves L n = realOf (numLeaves (nodes L n))"

definition walkedChildren :: "Layout \<Rightarrow> tree list \<Rightarrow> tree list" where
  "walkedChildren L kids =
     filter (\<lambda>c. \<not> isInputOrOutput (nodes L (nodeId c)) \<or> \<not> minimized (nodes L (nodeId c))) kids"


definition countsOK :: "Layout \<Rightarrow> nid \<Rightarrow> bool" where
  "countsOK L n \<longleftrightarrow> isFinite (numLeaves (nodes L n)) \<and> 0 \<le> leaves L n"

definition leavesAddUp :: "Layout \<Rightarrow> (nid \<times> jsnum \<times> nid option \<times> tree list) list \<Rightarrow> bool" where
  "leavesAddUp L its \<longleftrightarrow>
     (\<forall>(n, lc, e, kids)\<in>set its.
        countsOK L n
        \<and> (e = None \<longrightarrow>
             leaves L n = (\<Sum>c\<leftarrow>walkedChildren L kids. leaves L (nodeId c))
             \<and> (\<forall>c\<in>set (walkedChildren L kids).
                  countsOK L (nodeId c)
                  \<and> (\<not> (instanceofOmTreeNode (nodes L (nodeId c)) \<and> isVisible (nodes L (nodeId c)))
                       \<longrightarrow> leaves L (nodeId c) = 0))))"





section \<open>Example inputs\<close>

text \<open>A rectangle as the tree nodes hold it, a node, a scale, a base class whose
  methods do nothing, and a layout over a one-node tree.\<close>

definition exDims :: "real \<Rightarrow> real \<Rightarrow> real \<Rightarrow> real \<Rightarrow> Dimensions" where
  "exDims x y w h =
     newDimensionsPx [''x'' \<mapsto> Num (Fin x), ''y'' \<mapsto> Num (Fin y),
                      ''width'' \<mapsto> Num (Fin w), ''height'' \<mapsto> Num (Fin h)]"

definition exNode :: OmTreeNode where
  "exNode =
     \<lparr>instanceofOmTreeNode = True, depth = 1, nodeType = ''subsystem'', parent = None,
      parentComponent = None, subsystem_children = True, isVisible = True,
      isVisibleLeaf = False, isInput = False, isInputOrOutput = False, minimized = False,
      filtered = False, filterParent = None, numLeaves = Fin 1,
      dims = exDims (1 / 1000000) (1 / 1000000) 1 1,
      solverDims = exDims (1 / 1000000) (1 / 1000000) 1 1\<rparr>"

definition exScale :: Scale where
  "exScale = \<lparr>scaleX = \<lparr>scaleDomain = (Fin 0, Fin 1), scaleRange = (Fin 0, Fin 1)\<rparr>,
              scaleY = \<lparr>scaleDomain = (Fin 0, Fin 1), scaleRange = (Fin 0, Fin 1)\<rparr>,
              scalePrev = None\<rparr>"

definition exBase :: Base where
  "exBase =
     \<lparr>superInit = Inr, setColumnWidthsFromWidestText = (\<lambda>L n. Inr L),
      setColumnLocations = Inr, superPreservePreviousScaleValues = Inr,
      superUpdateScaleValues = Inr, newScale = (\<lambda>w h. exScale)\<rparr>"

definition exLayout :: Layout where
  "exLayout =
     \<lparr>nodes = (\<lambda>n. exNode), root = Tree 0 [], maxDepth = 2, zoomedElement = 0,
      showSolvers = False, zoomedSolverNodes = [], visibleSolverNodes = [],
      cols = [], solverCols = [], leafSolverWidthsPx = [], greatestDepth = 0,
      partitionTreeWidth = Fin 300, solverTreeWidth = Fin 400, solverTreeHeight = Fin 300,
      parentNodeWidth = Fin 40, scales = Map.empty, transitCoords = Map.empty\<rparr>"

text \<open>The layout zoomed on a node whose solver rectangle starts at a quarter of the
  width and half of the height.\<close>

definition exZoomed :: Layout where
  "exZoomed =
     exLayout\<lparr>nodes := (\<lambda>n. exNode\<lparr>solverDims := exDims (1 / 4) (1 / 2) (3 / 4) (1 / 2)\<rparr>),
       scales := [''solver'' \<mapsto> exScale],
       transitCoords :=
         [''solver'' \<mapsto> newDimensionsPx [''x'' \<mapsto> Num (Fin 0), ''y'' \<mapsto> Num (Fin 0)]]\<rparr>"

text \<open>A text-width pass that finds three occupied depths.\<close>

definition exWidestText :: "Layout \<Rightarrow> nid \<Rightarrow> error + Layout" where
  "exWidestText L n =
     Inr (L\<lparr>solverCols := [\<lparr>width = Fin 0, location = Fin 0\<rparr>,
                             \<lparr>width = Fin 30, location = Fin 0\<rparr>,
                             \<lparr>width = Fin 20, location = Fin 0\<rparr>],
            leafSolverWidthsPx := [Fin 0, Fin 10, Fin 60],
            greatestDepth := 2\<rparr>)"

text \<open>A component with four variables: a visible output, a hidden input, a minimized
  output and another visible output. No solver rectangle has been computed yet.\<close>

definition exVariable :: OmTreeNode where
  "exVariable =
     exNode\<lparr>nodeType := ''output'', parent := Some 0, parentComponent := Some 0,
       subsystem_children := False, isVisibleLeaf := True, isInputOrOutput := True,
       solverDims := newDimensionsPx Map.empty\<rparr>"

definition exTreeNodes :: "nid \<Rightarrow> OmTreeNode" where
  "exTreeNodes n =
     (if n = 0 then
        exNode\<lparr>depth := 0, nodeType := ''root'', numLeaves := Fin 2,
          dims := exDims 0 0 (1 / 3) 1, solverDims := newDimensionsPx Map.empty\<rparr>
      else if n = 2 then
        exVariable\<lparr>nodeType := ''input'', isVisible := False, isVisibleLeaf := False,
          isInput := True, numLeaves := Fin 0\<rparr>
      else if n = 3 then exVariable\<lparr>minimized := True, numLeaves := Fin 0\<rparr>
      else exVariable)"

definition exTreeLayout :: Layout where
  "exTreeLayout =
     exLayout\<lparr>nodes := exTreeNodes,
       root := Tree 0 [Tree 1 [], Tree 2 [], Tree 3 [], Tree 4 []],
       maxDepth := 1,
       cols := [\<lparr>width = Fin 100, location = Fin 0\<rparr>, \<lparr>width = Fin 200, location = Fin 100\<rparr>],
       solverCols := [\<lparr>width = Fin 40, location = Fin 0\<rparr>,
                      \<lparr>width = Fin 360, location = Fin 40\<rparr>]\<rparr>"



section \<open>Properties of Dimensions\<close>

subsection \<open>initFrom\<close>

lemma initLoop_unit: "unit (initLoop obj ip ps d) = unit d"
  by (induction ps arbitrary: d) (auto simp: prevAssign_def Let_def split: option.splits)

lemma initLoop_props:
  "props (initLoop obj ip ps d) p = (if p \<in> set ps \<and> p \<in> dom obj then obj p else props d p)"
  by (induction ps arbitrary: d) (auto simp: prevAssign_def Let_def split: option.splits)

lemma initLoop_managedProps:
  "distinct ps \<Longrightarrow> set ps \<inter> set (managedProps d) = {} \<Longrightarrow>
   managedProps (initLoop obj ip ps d) = managedProps d @ filter (\<lambda>p. obj p \<noteq> None) ps"
  by (induction ps arbitrary: d)
     (auto simp: prevAssign_def setAdd_def Let_def split: option.splits)

lemma initLoop_prev_False: "prev (initLoop obj False ps d) = prev d"
  by (induction ps arbitrary: d) (auto simp: Let_def split: option.splits)

lemma initLoop_prev_True:
  "prev d = Some m \<Longrightarrow>
   prev (initLoop obj True ps d) =
     Some (\<lambda>p. if p \<in> set ps \<and> p \<in> dom obj then Some (Num (Fin 0)) else m p)"
proof (induction ps arbitrary: d m)
  case Nil
  then show ?case by simp
next
  case (Cons a ps)
  show ?case
  proof (cases "obj a")
    case None
    have "(\<lambda>p. if p \<in> set ps \<and> p \<in> dom obj then Some (Num (Fin 0)) else m p) =
          (\<lambda>p. if p \<in> set (a # ps) \<and> p \<in> dom obj then Some (Num (Fin 0)) else m p)"
      using None by (auto simp: fun_eq_iff)
    with Cons.IH [OF Cons.prems] None show ?thesis by simp
  next
    case (Some v)
    let ?d = "prevAssign (d\<lparr>managedProps := setAdd (managedProps d) a,
                 props := (props d)(a \<mapsto> v)\<rparr>) a (Num (Fin 0))"
    have pd: "prev ?d = Some (m(a \<mapsto> Num (Fin 0)))"
      using Cons.prems by (simp add: prevAssign_def)
    have "(\<lambda>p. if p \<in> set ps \<and> p \<in> dom obj then Some (Num (Fin 0))
                else (m(a \<mapsto> Num (Fin 0))) p) =
          (\<lambda>p. if p \<in> set (a # ps) \<and> p \<in> dom obj then Some (Num (Fin 0)) else m p)"
      using Some by (auto simp: fun_eq_iff)
    with Cons.IH [OF pd] Some show ?thesis by (simp add: Let_def)
  qed
qed

lemma distinct_allowedProps: "distinct allowedProps"
  by (simp add: allowedProps_def)

lemma initLoop_restrict:
  "set ps' \<subseteq> set ps \<Longrightarrow> initLoop (obj |` set ps) ip ps' d = initLoop obj ip ps' d"
  by (induction ps' arbitrary: d) (auto simp: restrict_map_def)

lemma props_newDimensions:
  "props (newDimensions obj u) p = (if p \<in> set allowedProps then obj p else None)"
  by (auto simp: newDimensions_def initFrom_def Let_def initLoop_props blank_def)

text \<open>
  C3. \<open>initFrom(source, unit, initPrev)\<close> makes the managed fields exactly the allowed
  names that are keys of the source (in the order of the allowed list), copies the
  source's value of each onto the receiver and leaves every other property of the
  receiver as it was, sets the unit, gives the same result as on the source restricted
  to the allowed names (every other key of the source is ignored; the function is
  total, nothing is raised), and with \<open>initPrev\<close> makes \<open>prev\<close> a fresh object holding
  exactly the managed fields, each \<open>0\<close>; without \<open>initPrev\<close> it leaves \<open>prev\<close> alone.
\<close>

theorem initFrom_spec:
  "managedProps (initFrom this obj u initPrev) = filter (\<lambda>p. p \<in> dom obj) allowedProps
   \<and> props (initFrom this obj u initPrev) =
       (\<lambda>p. if p \<in> set allowedProps \<and> p \<in> dom obj then obj p else props this p)
   \<and> unit (initFrom this obj u initPrev) = u
   \<and> initFrom this (obj |` set allowedProps) u initPrev = initFrom this obj u initPrev
   \<and> prev (initFrom this obj u initPrev) =
       (if initPrev
        then Some (\<lambda>p. if p \<in> set allowedProps \<and> p \<in> dom obj
                        then Some (Num (Fin 0)) else None)
        else prev this)"
proof -
  have m: "managedProps (initFrom this obj u initPrev) =
      filter (\<lambda>p. p \<in> dom obj) allowedProps"
    by (simp add: initFrom_def Let_def initLoop_managedProps distinct_allowedProps dom_def)
  have p: "props (initFrom this obj u initPrev) =
       (\<lambda>p. if p \<in> set allowedProps \<and> p \<in> dom obj then obj p else props this p)"
    by (auto simp: initFrom_def Let_def initLoop_props fun_eq_iff)
  have u: "unit (initFrom this obj u initPrev) = u"
    by (simp add: initFrom_def Let_def initLoop_unit)
  have r: "initFrom this (obj |` set allowedProps) u initPrev = initFrom this obj u initPrev"
    by (simp add: initFrom_def Let_def initLoop_restrict)
  have v: "prev (initFrom this obj u initPrev) =
       (if initPrev
        then Some (\<lambda>p. if p \<in> set allowedProps \<and> p \<in> dom obj
                        then Some (Num (Fin 0)) else None)
        else prev this)"
    by (simp add: initFrom_def Let_def initLoop_prev_False initLoop_prev_True)
  from m p u r v show ?thesis by blast
qed

subsection \<open>preserve\<close>

lemma preserveLoop_props: "props (preserveLoop ps d) = props d"
  by (induction ps arbitrary: d) (auto simp: prevAssign_def)

lemma preserveLoop_unit: "unit (preserveLoop ps d) = unit d"
  by (induction ps arbitrary: d) (auto simp: prevAssign_def)

lemma preserveLoop_managedProps: "managedProps (preserveLoop ps d) = managedProps d"
  by (induction ps arbitrary: d) (auto simp: prevAssign_def)

lemma preserveLoop_prev:
  "prev d = Some m \<Longrightarrow>
   prev (preserveLoop ps d) =
     Some (\<lambda>p. if p \<in> set ps then Some (jsget (props d) p) else m p)"
proof (induction ps arbitrary: d m)
  case Nil
  then show ?case by simp
next
  case (Cons a ps)
  let ?d = "prevAssign d a (jsget (props d) a)"
  have pd: "prev ?d = Some (m(a \<mapsto> jsget (props d) a))"
    using Cons.prems by (simp add: prevAssign_def)
  have pp: "props ?d = props d"
    by (simp add: prevAssign_def)
  have "(\<lambda>p. if p \<in> set ps then Some (jsget (props d) p)
              else (m(a \<mapsto> jsget (props d) a)) p) =
        (\<lambda>p. if p \<in> set (a # ps) then Some (jsget (props d) p) else m p)"
    by (auto simp: fun_eq_iff)
  with Cons.IH [OF pd] pp show ?case by (simp cong: if_cong)
qed

lemma preserve_prev:
  "prev (preserve d) =
     Some (\<lambda>p. if p \<in> set (managedProps d) then Some (jsget (props d) p) else None)"
  by (simp add: preserve_def preserveLoop_prev cong: if_cong)

lemma preserve_frame:
  "props (preserve d) = props d"
  "unit (preserve d) = unit d"
  "managedProps (preserve d) = managedProps d"
  by (simp_all add: preserve_def preserveLoop_props preserveLoop_unit
      preserveLoop_managedProps)

text \<open>
  C2. \<open>preserve()\<close> replaces \<open>prev\<close> by an object whose keys are exactly the managed
  fields, each bound to the field's current value, and changes nothing else; a second
  call right after the first gives the same object again.
\<close>

theorem preserve_spec:
  "prev (preserve d) =
     Some (\<lambda>p. if p \<in> set (managedProps d) then Some (jsget (props d) p) else None)
   \<and> props (preserve d) = props d
   \<and> managedProps (preserve d) = managedProps d
   \<and> prev (preserve (preserve d)) = prev (preserve d)
   \<and> preserve (preserve d) = preserve d"
proof -
  have "preserve (preserve d) = preserve d"
    by (rule Dimensions.equality) (simp_all add: preserve_prev preserve_frame cong: if_cong)
  then show ?thesis by (simp add: preserve_prev preserve_frame)
qed

subsection \<open>copyFrom\<close>

text \<open>Whatever the two instances are, \<open>copyFrom\<close> ends in the \<open>TypeError\<close> of its
  \<open>for ... of\<close> statement, with the receiver's \<open>prev\<close> left empty.\<close>

lemma copyFrom_raises:
  "snd (copyFrom this other) = Some TypeError
   \<and> prev (fst (copyFrom this other)) = Some Map.empty"
  by (cases "prev other") (simp_all add: copyFrom_def Let_def)

text \<open>
  C1. The specification has \<open>copyFrom(other)\<close> leave the receiver with a \<open>prev\<close> equal
  to the one of \<open>other\<close>. On \<open>other = new Dimensions({x: 1, y: 2})\<close>, whose \<open>prev\<close> is
  \<open>{x: 0, y: 0}\<close>, and a receiver \<open>new Dimensions({})\<close>, the call raises \<open>TypeError\<close>
  and the receiver's \<open>prev\<close> is the empty object.
\<close>

theorem copyFrom_failing_input:
  "snd (copyFrom (newDimensionsPx Map.empty)
          (newDimensionsPx [''x'' \<mapsto> Num (Fin 1), ''y'' \<mapsto> Num (Fin 2)])) = Some TypeError
   \<and> prev (fst (copyFrom (newDimensionsPx Map.empty)
          (newDimensionsPx [''x'' \<mapsto> Num (Fin 1), ''y'' \<mapsto> Num (Fin 2)]))) = Some Map.empty
   \<and> (\<exists>m. prev (newDimensionsPx [''x'' \<mapsto> Num (Fin 1), ''y'' \<mapsto> Num (Fin 2)]) = Some m
          \<and> m ''x'' = Some (Num (Fin 0)) \<and> m ''y'' = Some (Num (Fin 0)))"
  by (simp add: copyFrom_def Let_def newDimensionsPx_def newDimensions_def initFrom_def
      blank_def allowedProps_def prevAssign_def)

section \<open>Properties of the scale bookkeeping\<close>

lemma numTruthy_iff: "x \<noteq> NaN \<Longrightarrow> numTruthy x = (x \<noteq> Fin 0)"
  by (cases x) simp_all

lemma props_exDims:
  "jsget (props (exDims x y w h)) ''x'' = Num (Fin x)"
  "jsget (props (exDims x y w h)) ''y'' = Num (Fin y)"
  "jsget (props (exDims x y w h)) ''width'' = Num (Fin w)"
  "jsget (props (exDims x y w h)) ''height'' = Num (Fin h)"
  by (simp_all add: exDims_def newDimensionsPx_def props_newDimensions jsget_def
      allowedProps_def)

text \<open>
  C6. Let the base class's part of \<open>updateScaleValues()\<close> return, let the solver
  transit coordinates and the solver scale exist, and let the zoomed element's solver
  rectangle hold the numbers \<open>x\<close> (not \<open>NaN\<close>), \<open>y\<close> and \<open>h\<close>. Then the call returns,
  and in the layout it leaves the transit \<open>x\<close> is the solver-tree width, less the
  parent-node width when \<open>x\<close> is nonzero, divided by \<open>1 - x\<close>; the transit \<open>y\<close> is the
  solver-tree height divided by \<open>h\<close>; the \<open>x\<close> scaler has domain \<open>[x, 1]\<close> and range
  from the parent-node width (from \<open>0\<close> when \<open>x\<close> is zero) to the tree width; the
  \<open>y\<close> scaler has domain \<open>[y, y + h]\<close> and range \<open>[0, tree height]\<close>.
\<close>

theorem updateScaleValues_spec:
  assumes sup: "superUpdateScaleValues B this = Inr L1"
    and tc: "transitCoords L1 ''solver'' = Some tc"
    and sc: "scales L1 ''solver'' = Some sc"
    and x: "jsget (props (solverDims (nodes L1 (zoomedElement L1)))) ''x'' = Num x" "x \<noteq> NaN"
    and y: "jsget (props (solverDims (nodes L1 (zoomedElement L1)))) ''y'' = Num y"
    and h: "jsget (props (solverDims (nodes L1 (zoomedElement L1)))) ''height'' = Num h"
  shows "\<exists>L' tc' sc'. updateScaleValues B this = Inr L'
     \<and> solverDims (nodes L' (zoomedElement L')) = solverDims (nodes L1 (zoomedElement L1))
     \<and> transitCoords L' ''solver'' = Some tc' \<and> scales L' ''solver'' = Some sc'
     \<and> jsget (props tc') ''x'' =
         Num (jsdiv (if x \<noteq> Fin 0 then jssub (solverTreeWidth L') (parentNodeWidth L')
                     else solverTreeWidth L')
                (jssub (Fin 1) x))
     \<and> jsget (props tc') ''y'' = Num (jsdiv (solverTreeHeight L') h)
     \<and> scaleDomain (scaleX sc') = (x, Fin 1)
     \<and> scaleRange (scaleX sc') =
         (if x \<noteq> Fin 0 then parentNodeWidth L' else Fin 0, solverTreeWidth L')
     \<and> scaleDomain (scaleY sc') = (y, jsadd y h)
     \<and> scaleRange (scaleY sc') = (Fin 0, solverTreeHeight L')"
  using assms by (simp add: updateScaleValues_def Let_def jsget_def numTruthy_iff)

theorem updateScaleValues_spec_witness:
  "\<exists>L' tc' sc'. updateScaleValues exBase exZoomed = Inr L'
     \<and> solverDims (nodes L' (zoomedElement L')) =
         solverDims (nodes exZoomed (zoomedElement exZoomed))
     \<and> transitCoords L' ''solver'' = Some tc' \<and> scales L' ''solver'' = Some sc'
     \<and> jsget (props tc') ''x'' =
         Num (jsdiv (if Fin (1 / 4) \<noteq> Fin 0
                     then jssub (solverTreeWidth L') (parentNodeWidth L')
                     else solverTreeWidth L')
                (jssub (Fin 1) (Fin (1 / 4))))
     \<and> jsget (props tc') ''y'' = Num (jsdiv (solverTreeHeight L') (Fin (1 / 2)))
     \<and> scaleDomain (scaleX sc') = (Fin (1 / 4), Fin 1)
     \<and> scaleRange (scaleX sc') =
         (if Fin (1 / 4) \<noteq> Fin 0 then parentNodeWidth L' else Fin 0, solverTreeWidth L')
     \<and> scaleDomain (scaleY sc') = (Fin (1 / 2), jsadd (Fin (1 / 2)) (Fin (1 / 2)))
     \<and> scaleRange (scaleY sc') = (Fin 0, solverTreeHeight L')"
proof (rule updateScaleValues_spec)
  show "superUpdateScaleValues exBase exZoomed = Inr exZoomed"
    by (simp add: exBase_def)
  show "transitCoords exZoomed ''solver'' =
       Some (newDimensionsPx [''x'' \<mapsto> Num (Fin 0), ''y'' \<mapsto> Num (Fin 0)])"
    by (simp add: exZoomed_def)
  show "scales exZoomed ''solver'' = Some exScale"
    by (simp add: exZoomed_def)
  show "jsget (props (solverDims (nodes exZoomed (zoomedElement exZoomed)))) ''x'' =
      Num (Fin (1 / 4))"
    by (simp add: exZoomed_def props_exDims)
  show "Fin (1 / 4) \<noteq> NaN"
    by simp
  show "jsget (props (solverDims (nodes exZoomed (zoomedElement exZoomed)))) ''y'' =
      Num (Fin (1 / 2))"
    by (simp add: exZoomed_def props_exDims)
  show "jsget (props (solverDims (nodes exZoomed (zoomedElement exZoomed)))) ''height'' =
      Num (Fin (1 / 2))"
    by (simp add: exZoomed_def props_exDims)
qed

text \<open>
  C10. Let the base class's \<open>_init()\<close> return a layout \<open>L0\<close> in which \<open>scales.solver\<close>
  is not set, and let the base class's \<open>preservePreviousScaleValues()\<close> return and leave
  the two \<open>solver\<close> entries as they are. Without \<open>showSolvers\<close>, \<open>_init()\<close> returns; and
  whenever \<open>_init()\<close> returns, \<open>transitCoords.solver\<close> is the fresh
  \<open>new Dimensions({x: 0, y: 0})\<close>, \<open>scales.solver\<close> is missing exactly when \<open>showSolvers\<close>
  is false, and \<open>preservePreviousScaleValues()\<close> returns exactly when \<open>showSolvers\<close> is
  true: without it the call raises \<open>TypeError\<close>.
\<close>

theorem init_solver_scale:
  assumes si: "superInit B this = Inr L0"
    and sc0: "scales L0 ''solver'' = None"
    and sp: "\<And>L. \<exists>L1. superPreservePreviousScaleValues B L = Inr L1
                \<and> scales L1 ''solver'' = scales L ''solver''
                \<and> transitCoords L1 ''solver'' = transitCoords L ''solver''"
  shows "(\<not> showSolvers L0 \<longrightarrow> (\<exists>L. init B this = Inr L))
     \<and> (\<forall>L. init B this = Inr L \<longrightarrow>
           transitCoords L ''solver'' =
             Some (newDimensionsPx [''x'' \<mapsto> Num (Fin 0), ''y'' \<mapsto> Num (Fin 0)])
         \<and> (scales L ''solver'' = None \<longleftrightarrow> \<not> showSolvers L0)
         \<and> ((\<exists>L'. preservePreviousScaleValues B L = Inr L') \<longleftrightarrow> showSolvers L0)
         \<and> (preservePreviousScaleValues B L = Inl TypeError \<longleftrightarrow> \<not> showSolvers L0))"
proof -
  have a: "\<not> showSolvers L0 \<longrightarrow> (\<exists>L. init B this = Inr L)"
    using si by (simp add: init_def)
  have b: "transitCoords L ''solver'' =
             Some (newDimensionsPx [''x'' \<mapsto> Num (Fin 0), ''y'' \<mapsto> Num (Fin 0)])
         \<and> (scales L ''solver'' = None \<longleftrightarrow> \<not> showSolvers L0)"
    if "init B this = Inr L" for L
    using that si sc0
    by (auto simp: init_def Let_def split: sum.splits option.splits if_splits)
  have c: "((\<exists>L'. preservePreviousScaleValues B L = Inr L') \<longleftrightarrow> showSolvers L0)
         \<and> (preservePreviousScaleValues B L = Inl TypeError \<longleftrightarrow> \<not> showSolvers L0)"
    if i: "init B this = Inr L" for L
  proof -
    from sp [of L] obtain L1 where L1: "superPreservePreviousScaleValues B L = Inr L1"
      "scales L1 ''solver'' = scales L ''solver''"
      "transitCoords L1 ''solver'' = transitCoords L ''solver''" by blast
    show ?thesis
      using b [OF i] L1
      by (auto simp: preservePreviousScaleValues_def Let_def split: option.splits)
  qed
  from a b c show ?thesis by blast
qed

theorem init_solver_scale_witness:
  "\<exists>L. init exBase exLayout = Inr L
     \<and> transitCoords L ''solver'' =
          Some (newDimensionsPx [''x'' \<mapsto> Num (Fin 0), ''y'' \<mapsto> Num (Fin 0)])
     \<and> scales L ''solver'' = None
     \<and> preservePreviousScaleValues exBase L = Inl TypeError"
proof -
  have si: "superInit exBase exLayout = Inr exLayout"
    by (simp add: exBase_def)
  have sc0: "scales exLayout ''solver'' = None"
    by (simp add: exLayout_def)
  have sp: "\<exists>L1. superPreservePreviousScaleValues exBase L = Inr L1
                \<and> scales L1 ''solver'' = scales L ''solver''
                \<and> transitCoords L1 ''solver'' = transitCoords L ''solver''" for L
    by (simp add: exBase_def)
  have ns: "\<not> showSolvers exLayout"
    by (simp add: exLayout_def)
  from init_solver_scale [OF si sc0 sp] ns show ?thesis
    by blast
qed

section \<open>Properties of the solver column widths\<close>

lemma shortfallAt_sum: "shortfallAt ws ls i = ls ! i - (\<Sum>j = i..<length ls. ws ! j)"
  by (simp add: shortfallAt_def interv_sum_list_conv_sum_set_nat)

lemma largestShortfall_Max:
  "largestShortfall ws ls zd = Max (insert 0 (shortfallAt ws ls ` {zd..<length ls}))"
  by (simp add: largestShortfall_def)

lemma largestShortfall_nonneg: "0 \<le> largestShortfall ws ls zd"
  by (simp add: largestShortfall_Max)

text \<open>
  The loop counts \<open>i\<close> down. When it is about to run for \<open>i = k - 1\<close>, \<open>sum\<close> is the
  sum of the column widths of the depths from \<open>k\<close> on and \<open>lastColumnWidth\<close> is the
  largest shortfall found at those depths, or \<open>0\<close>.
\<close>

lemma lastColumnLoop_invariant:
  assumes fin: "\<forall>c\<in>set cs. isFinite (width c)" "\<forall>l\<in>set ls. isFinite l"
    and len: "length ls \<le> length cs"
  shows "zd \<le> k \<Longrightarrow> k \<le> length ls \<Longrightarrow> k - zd = d \<Longrightarrow>
    lastColumnLoop cs ls zd (int k - 1)
        (Fin (\<Sum>j = k..<length ls. map (\<lambda>c. realOf (width c)) cs ! j))
        (Fin (Max (insert 0 (shortfallAt (map (\<lambda>c. realOf (width c)) cs) (map realOf ls)
                               ` {k..<length ls}))))
      = Inr (Fin (largestShortfall (map (\<lambda>c. realOf (width c)) cs) (map realOf ls) zd))"
proof (induction d arbitrary: k)
  case 0
  then have "k = zd" by simp
  then show ?case
    by (subst lastColumnLoop.simps) (simp add: largestShortfall_Max)
next
  case (Suc d)
  let ?ws = "map (\<lambda>c. realOf (width c)) cs"
  let ?ls = "map realOf ls"
  let ?n = "length ls"
  from Suc.prems obtain i where k: "k = Suc i" and i: "zd \<le> i" "i < ?n" "i - zd = d"
    by (cases k) auto
  define Sk where "Sk = (\<Sum>j = k..<?n. ?ws ! j)"
  define Si where "Si = (\<Sum>j = i..<?n. ?ws ! j)"
  define Mk where "Mk = Max (insert 0 (shortfallAt ?ws ?ls ` {k..<?n}))"
  define Mi where "Mi = Max (insert 0 (shortfallAt ?ws ?ls ` {i..<?n}))"
  have ic: "i < length cs" using i len by simp
  have "isFinite (width (cs ! i))"
    using fin(1) ic nth_mem by blast
  then obtain wi where w: "width (cs ! i) = Fin wi"
    by (cases "width (cs ! i)") simp_all
  have wi: "?ws ! i = wi"
    using ic w by simp
  have "isFinite (ls ! i)"
    using fin(2) i(2) nth_mem by blast
  then obtain li where l': "ls ! i = Fin li"
    by (cases "ls ! i") simp_all
  have l: "leafAt ls i = Fin li" and li: "?ls ! i = li"
    using i(2) l' by (simp_all add: leafAt_def)
  have s: "Sk + wi = Si"
    using i k wi by (simp add: Sk_def Si_def sum.atLeast_Suc_lessThan)
  have set_eq: "{i..<?n} = insert i {k..<?n}"
    using i k by auto
  have "Mi = Max (insert (shortfallAt ?ws ?ls i) (insert 0 (shortfallAt ?ws ?ls ` {k..<?n})))"
    by (simp add: Mi_def set_eq insert_commute)
  also have "\<dots> = max (shortfallAt ?ws ?ls i) Mk"
    unfolding Mk_def by (rule Max_insert) auto
  also have "shortfallAt ?ws ?ls i = li - Si"
    using li by (simp add: shortfallAt_sum Si_def)
  finally have m: "max (li - Si) Mk = Mi" by simp
  have cond: "zd < k" "int zd \<le> int k - 1" "nat (int k - 1) = i"
      "int k - 1 - 1 = int i - 1"
    using i k by auto
  have "lastColumnLoop cs ls zd (int k - 1) (Fin Sk) (Fin Mk)
      = lastColumnLoop cs ls zd (int i - 1) (Fin Si) (Fin Mi)"
    by (subst lastColumnLoop.simps)
       (simp add: cond colAt_def ic w l Let_def jssub_def s m)
  also have "\<dots> = Inr (Fin (largestShortfall ?ws ?ls zd))"
    unfolding Si_def Mi_def by (rule Suc.IH) (use i in auto)
  finally show ?case
    unfolding Sk_def Mk_def .
qed

lemma lastColumnLoop_spec:
  assumes "\<forall>c\<in>set cs. isFinite (width c)" "\<forall>l\<in>set ls. isFinite l"
    and "length ls \<le> length cs" and "zd \<le> length ls"
  shows "lastColumnLoop cs ls zd (int (length ls) - 1) (Fin 0) (Fin 0)
      = Inr (Fin (largestShortfall (map (\<lambda>c. realOf (width c)) cs) (map realOf ls) zd))"
  using lastColumnLoop_invariant [OF assms(1-3), of zd "length ls" "length ls - zd"] assms(4)
  by simp

text \<open>
  C7. Let the base class's text-width pass return the layout \<open>L4\<close>, with finite column
  widths and per-leaf widths, a focus depth \<open>zd\<close> of at least one, a greatest occupied
  depth that is not above the focus and lies inside the column array, and no more
  per-leaf widths than columns. Then \<open>_computeSolverColumnWidths()\<close> returns, the column
  at depth \<open>zd - 1\<close> has the parent-node width, and the column at the greatest occupied
  depth has the largest shortfall, over the depths from the focus depth on, between the
  per-leaf width of a depth and the sum of the column widths from the deepest level down
  to that depth; this width is at least \<open>0\<close>.
\<close>

theorem computeSolverColumnWidths_spec:
  assumes base: "setColumnWidthsFromWidestText B
        (this\<lparr>greatestDepth := 0,
              leafSolverWidthsPx := replicate (maxDepth this + 1) (Fin 0),
              solverCols := replicate (maxDepth this + 1) \<lparr>width = Fin 0, location = Fin 0\<rparr>\<rparr>)
        node = Inr L4"
    and zd: "zd = depth (nodes L4 (zoomedElement L4))" "0 < zd" "zd \<le> greatestDepth L4"
    and len: "greatestDepth L4 < length (solverCols L4)"
             "length (leafSolverWidthsPx L4) \<le> length (solverCols L4)"
             "zd \<le> length (leafSolverWidthsPx L4)"
    and fin: "\<forall>c\<in>set (solverCols L4). isFinite (width c)"
             "\<forall>l\<in>set (leafSolverWidthsPx L4). isFinite l"
  shows "\<exists>L'. computeSolverColumnWidths B this node = Inr L'
      \<and> zd = depth (nodes L' (zoomedElement L'))
      \<and> width (solverCols L' ! (zd - 1)) = parentNodeWidth L'
      \<and> width (solverCols L' ! greatestDepth L') =
          Fin (largestShortfall (map (\<lambda>c. realOf (width c)) (solverCols L4))
                 (map realOf (leafSolverWidthsPx L4)) zd)
      \<and> 0 \<le> largestShortfall (map (\<lambda>c. realOf (width c)) (solverCols L4))
                 (map realOf (leafSolverWidthsPx L4)) zd"
proof -
  have loop: "lastColumnLoop (solverCols L4) (leafSolverWidthsPx L4) zd
        (int (length (leafSolverWidthsPx L4)) - 1) (Fin 0) (Fin 0)
      = Inr (Fin (largestShortfall (map (\<lambda>c. realOf (width c)) (solverCols L4))
                 (map realOf (leafSolverWidthsPx L4)) zd))"
    using fin len by (intro lastColumnLoop_spec) auto
  have lt: "zd - 1 < length (solverCols L4)" "zd - 1 \<noteq> greatestDepth L4"
    using zd len by auto
  show ?thesis
    using base loop lt len zd(1,2)
    by (simp add: computeSolverColumnWidths_def Let_def setColWidth_def
        largestShortfall_nonneg)
qed

theorem computeSolverColumnWidths_spec_witness:
  "\<exists>L'. computeSolverColumnWidths (exBase\<lparr>setColumnWidthsFromWidestText := exWidestText\<rparr>)
           exLayout 0 = Inr L'
      \<and> width (solverCols L' ! 0) = parentNodeWidth L'
      \<and> width (solverCols L' ! greatestDepth L') = Fin 40"
proof -
  let ?B = "exBase\<lparr>setColumnWidthsFromWidestText := exWidestText\<rparr>"
  let ?L4 = "exLayout\<lparr>solverCols := [\<lparr>width = Fin 0, location = Fin 0\<rparr>,
                             \<lparr>width = Fin 30, location = Fin 0\<rparr>,
                             \<lparr>width = Fin 20, location = Fin 0\<rparr>],
            leafSolverWidthsPx := [Fin 0, Fin 10, Fin 60],
            greatestDepth := 2\<rparr>"
  have base: "setColumnWidthsFromWidestText ?B
        (exLayout\<lparr>greatestDepth := 0,
              leafSolverWidthsPx := replicate (maxDepth exLayout + 1) (Fin 0),
              solverCols := replicate (maxDepth exLayout + 1) \<lparr>width = Fin 0, location = Fin 0\<rparr>\<rparr>)
        0 = Inr ?L4"
    by (simp add: exWidestText_def exLayout_def)
  have sf: "largestShortfall (map (\<lambda>c. realOf (width c)) (solverCols ?L4))
                 (map realOf (leafSolverWidthsPx ?L4)) 1 = 40"
    by (simp add: largestShortfall_def shortfallAt_def upt_rec [of 1] upt_rec [of 2]
        upt_rec [of 3])
  have zd: "1 = depth (nodes ?L4 (zoomedElement ?L4))"
    by (simp add: exLayout_def exNode_def)
  show ?thesis
    using computeSolverColumnWidths_spec [OF base zd] sf by auto
qed

section \<open>Properties of the solver geometry walk\<close>

subsection \<open>What the walk leaves alone\<close>

lemma erase_setSolverDim: "erase (setSolverDim L n p v) = erase L"
  by (simp add: erase_def setSolverDim_def updNode_def eraseNode_def fun_eq_iff)

lemma erase_preserveDims: "erase (preserveDims L n) = erase L"
  by (simp add: erase_def preserveDims_def updNode_def eraseNode_def fun_eq_iff)

lemma erase_enterNode: "erase (fst (enterNode L n z e)) = erase L"
  by (simp add: erase_def enterNode_def Let_def)

lemma erase_hiddenDims: "hiddenDims L n = Inr L' \<Longrightarrow> erase L' = erase L"
  by (auto simp: hiddenDims_def Let_def erase_setSolverDim split: option.splits sum.splits)

lemma erase_visibleDims: "visibleDims L n lc w = Inr L' \<Longrightarrow> erase L' = erase L"
  by (auto simp: visibleDims_def Let_def erase_setSolverDim split: option.splits sum.splits)

lemma erase_assignSolverDims: "assignSolverDims L n lc w = Inr L' \<Longrightarrow> erase L' = erase L"
  by (auto simp: assignSolverDims_def erase_hiddenDims erase_visibleDims split: if_splits)

lemma erase_walk:
  "computeSolverNormalizedPositions L t lc z e = Inr L' \<Longrightarrow> erase L' = erase L"
  "childrenLoop L ts lc z e = Inr L' \<Longrightarrow> erase L' = erase L"
proof (induction L t lc z e and L ts lc z e arbitrary: L' and L'
    rule: computeSolverNormalizedPositions_childrenLoop.induct)
  case (1 L n kids leafCounter isChildOfZoomed earliestMinimizedParent)
  show ?case
  proof (cases "instanceofOmTreeNode (nodes L n)")
    case False
    with "1.prems" show ?thesis by simp
  next
    case True
    define z' where "z' = (if \<not> isChildOfZoomed then n = zoomedElement L else isChildOfZoomed)"
    define en where "en = enterNode L n z' earliestMinimizedParent"
    define L2 where "L2 = preserveDims (fst en) n"
    define w where "w = (case snd en of Some p \<Rightarrow> p | None \<Rightarrow> n)"
    from "1.prems" True obtain L3 where
      a: "assignSolverDims L2 n leafCounter w = Inr L3"
      and c: "childrenLoop L3 kids leafCounter z' (snd en) = Inr L'"
      by (auto simp: Let_def z'_def en_def L2_def w_def split: sum.splits)
    have "erase L' = erase L3"
      using "1.IH" [OF _ z'_def en_def L2_def w_def a c] True by simp
    also have "\<dots> = erase L2" using a by (rule erase_assignSolverDims)
    also have "\<dots> = erase L" by (simp add: L2_def en_def erase_preserveDims erase_enterNode)
    finally show ?thesis .
  qed
next
  case (2 L leafCounter isChildOfZoomed earliestMinimizedParent)
  then show ?case by simp
next
  case (3 L child rest leafCounter isChildOfZoomed earliestMinimizedParent)
  show ?case
  proof (cases "\<not> isInputOrOutput (nodes L (nodeId child)) \<or> \<not> minimized (nodes L (nodeId child))")
    case True
    with "3.prems" obtain L1 where
      a: "computeSolverNormalizedPositions L child leafCounter isChildOfZoomed
            (case filterParent (nodes L (nodeId child)) of
               None \<Rightarrow> earliestMinimizedParent | Some p \<Rightarrow> Some p) = Inr L1"
      and c: "childrenLoop L1 rest
               (if earliestMinimizedParent = None
                then jsadd leafCounter (numLeaves (nodes L1 (nodeId child)))
                else leafCounter) isChildOfZoomed earliestMinimizedParent = Inr L'"
      by (auto split: sum.splits option.splits)
    have "erase L' = erase L1" using "3.IH"(2) [OF True a c] .
    also have "\<dots> = erase L" using "3.IH"(1) [OF True a] .
    finally show ?thesis .
  next
    case False
    with "3.prems" have "childrenLoop L rest leafCounter isChildOfZoomed earliestMinimizedParent = Inr L'"
      by simp
    with "3.IH"(3) [OF False] show ?thesis by simp
  qed
qed

lemma eraseNode_eq: "erase L' = erase L \<Longrightarrow> eraseNode (nodes L' n) = eraseNode (nodes L n)"
  by (drule arg_cong [where f = "\<lambda>L. nodes L n"]) (simp add: erase_def)

lemma eraseNode_cong:
  assumes "eraseNode a = eraseNode b" and "\<And>nd. f (eraseNode nd) = f nd"
  shows "f a = f b"
proof -
  have "f a = f (eraseNode a)" by (simp only: assms(2))
  also have "\<dots> = f (eraseNode b)" by (simp only: assms(1))
  also have "\<dots> = f b" by (simp only: assms(2))
  finally show ?thesis .
qed

lemma erase_cong:
  assumes "erase L' = erase L" and "\<And>K. f (erase K) = f K"
  shows "f L' = f L"
proof -
  have "f L' = f (erase L')" by (simp only: assms(2))
  also have "\<dots> = f (erase L)" by (simp only: assms(1))
  also have "\<dots> = f L" by (simp only: assms(2))
  finally show ?thesis .
qed

lemma eraseNode_fields:
  assumes "eraseNode a = eraseNode b"
  shows "instanceofOmTreeNode a = instanceofOmTreeNode b"
    and "depth a = depth b"
    and "parentComponent a = parentComponent b"
    and "subsystem_children a = subsystem_children b"
    and "isVisible a = isVisible b"
    and "isVisibleLeaf a = isVisibleLeaf b"
    and "isInput a = isInput b"
    and "isInputOrOutput a = isInputOrOutput b"
    and "minimized a = minimized b"
    and "filtered a = filtered b"
    and "filterParent a = filterParent b"
    and "numLeaves a = numLeaves b"
    and "dims a = dims b"
    and "nodeType a = nodeType b"
    and "parent a = parent b"
  subgoal by (rule eraseNode_cong [OF assms, where f = instanceofOmTreeNode]) (simp add: eraseNode_def)
  subgoal by (rule eraseNode_cong [OF assms, where f = depth]) (simp add: eraseNode_def)
  subgoal by (rule eraseNode_cong [OF assms, where f = parentComponent]) (simp add: eraseNode_def)
  subgoal by (rule eraseNode_cong [OF assms, where f = subsystem_children]) (simp add: eraseNode_def)
  subgoal by (rule eraseNode_cong [OF assms, where f = isVisible]) (simp add: eraseNode_def)
  subgoal by (rule eraseNode_cong [OF assms, where f = isVisibleLeaf]) (simp add: eraseNode_def)
  subgoal by (rule eraseNode_cong [OF assms, where f = isInput]) (simp add: eraseNode_def)
  subgoal by (rule eraseNode_cong [OF assms, where f = isInputOrOutput]) (simp add: eraseNode_def)
  subgoal by (rule eraseNode_cong [OF assms, where f = minimized]) (simp add: eraseNode_def)
  subgoal by (rule eraseNode_cong [OF assms, where f = filtered]) (simp add: eraseNode_def)
  subgoal by (rule eraseNode_cong [OF assms, where f = filterParent]) (simp add: eraseNode_def)
  subgoal by (rule eraseNode_cong [OF assms, where f = numLeaves]) (simp add: eraseNode_def)
  subgoal by (rule eraseNode_cong [OF assms, where f = dims]) (simp add: eraseNode_def)
  subgoal by (rule eraseNode_cong [OF assms, where f = nodeType]) (simp add: eraseNode_def)
  by (rule eraseNode_cong [OF assms, where f = parent]) (simp add: eraseNode_def)

lemma erase_node_fields:
  assumes "erase L' = erase L"
  shows "instanceofOmTreeNode (nodes L' n) = instanceofOmTreeNode (nodes L n)"
    and "depth (nodes L' n) = depth (nodes L n)"
    and "parentComponent (nodes L' n) = parentComponent (nodes L n)"
    and "subsystem_children (nodes L' n) = subsystem_children (nodes L n)"
    and "isVisible (nodes L' n) = isVisible (nodes L n)"
    and "isVisibleLeaf (nodes L' n) = isVisibleLeaf (nodes L n)"
    and "isInput (nodes L' n) = isInput (nodes L n)"
    and "isInputOrOutput (nodes L' n) = isInputOrOutput (nodes L n)"
    and "minimized (nodes L' n) = minimized (nodes L n)"
    and "filtered (nodes L' n) = filtered (nodes L n)"
    and "filterParent (nodes L' n) = filterParent (nodes L n)"
    and "numLeaves (nodes L' n) = numLeaves (nodes L n)"
    and "dims (nodes L' n) = dims (nodes L n)"
    and "nodeType (nodes L' n) = nodeType (nodes L n)"
    and "parent (nodes L' n) = parent (nodes L n)"
  by (rule eraseNode_fields [OF eraseNode_eq [OF assms]])+

lemma erase_layout_fields:
  assumes "erase L' = erase L"
  shows "root L' = root L"
    and "zoomedElement L' = zoomedElement L"
    and "cols L' = cols L"
    and "solverCols L' = solverCols L"
    and "partitionTreeWidth L' = partitionTreeWidth L"
    and "solverTreeWidth L' = solverTreeWidth L"
    and "solverTreeHeight L' = solverTreeHeight L"
    and "parentNodeWidth L' = parentNodeWidth L"
    and "scales L' = scales L"
    and "transitCoords L' = transitCoords L"
    and "maxDepth L' = maxDepth L"
    and "showSolvers L' = showSolvers L"
    and "leafSolverWidthsPx L' = leafSolverWidthsPx L"
    and "greatestDepth L' = greatestDepth L"
  subgoal by (rule erase_cong [OF assms, where f = root]) (simp add: erase_def)
  subgoal by (rule erase_cong [OF assms, where f = zoomedElement]) (simp add: erase_def)
  subgoal by (rule erase_cong [OF assms, where f = cols]) (simp add: erase_def)
  subgoal by (rule erase_cong [OF assms, where f = solverCols]) (simp add: erase_def)
  subgoal by (rule erase_cong [OF assms, where f = partitionTreeWidth]) (simp add: erase_def)
  subgoal by (rule erase_cong [OF assms, where f = solverTreeWidth]) (simp add: erase_def)
  subgoal by (rule erase_cong [OF assms, where f = solverTreeHeight]) (simp add: erase_def)
  subgoal by (rule erase_cong [OF assms, where f = parentNodeWidth]) (simp add: erase_def)
  subgoal by (rule erase_cong [OF assms, where f = scales]) (simp add: erase_def)
  subgoal by (rule erase_cong [OF assms, where f = transitCoords]) (simp add: erase_def)
  subgoal by (rule erase_cong [OF assms, where f = maxDepth]) (simp add: erase_def)
  subgoal by (rule erase_cong [OF assms, where f = showSolvers]) (simp add: erase_def)
  subgoal by (rule erase_cong [OF assms, where f = leafSolverWidthsPx]) (simp add: erase_def)
  by (rule erase_cong [OF assms, where f = greatestDepth]) (simp add: erase_def)


lemma visited_erase:
  "(\<And>n. eraseNode (N' n) = eraseNode (N n)) \<Longrightarrow> visited N' t = visited N t"
  "(\<And>n. eraseNode (N' n) = eraseNode (N n)) \<Longrightarrow> visitedChildren N' ts = visitedChildren N ts"
proof (induction N t and N ts rule: visited_visitedChildren.induct)
  case (1 N n kids)
  have "instanceofOmTreeNode (N' n) = instanceofOmTreeNode (N n)"
    using "1.prems" [of n] by (rule eraseNode_fields)
  with 1 show ?case by simp
next
  case (2 N)
  then show ?case by simp
next
  case (3 N child rest)
  have "isInputOrOutput (N' (nodeId child)) = isInputOrOutput (N (nodeId child))"
       "minimized (N' (nodeId child)) = minimized (N (nodeId child))"
    using "3.prems" [of "nodeId child"] by (rule eraseNode_fields)+
  with 3 show ?case by simp
qed

lemma visited_walk:
  "erase L' = erase L \<Longrightarrow> visited (nodes L') t = visited (nodes L) t"
  "erase L' = erase L \<Longrightarrow> visitedChildren (nodes L') ts = visitedChildren (nodes L) ts"
  by (rule visited_erase, erule eraseNode_eq)+

lemma hiddenRect_erase:
  assumes "erase L' = erase L"
  shows "hiddenRect L' n sd = hiddenRect L n sd"
  unfolding hiddenRect_def
  by (simp only: erase_node_fields [OF assms] erase_layout_fields [OF assms])

lemma nodes_setSolverDim_other: "m \<noteq> n \<Longrightarrow> nodes (setSolverDim L n p v) m = nodes L m"
  by (simp add: setSolverDim_def updNode_def)

lemma props_setSolverDim:
  "props (solverDims (nodes (setSolverDim L n p v) n)) = (props (solverDims (nodes L n)))(p \<mapsto> v)"
  by (simp add: setSolverDim_def updNode_def)

lemma nodes_preserveDims_other: "m \<noteq> n \<Longrightarrow> nodes (preserveDims L n) m = nodes L m"
  by (simp add: preserveDims_def updNode_def)

lemma props_preserveDims:
  "props (solverDims (nodes (preserveDims L n) m)) = props (solverDims (nodes L m))"
  by (simp add: preserveDims_def updNode_def preserve_def preserveLoop_props)

lemma nodes_enterNode: "nodes (fst (enterNode L n z e)) = nodes L"
  by (simp add: enterNode_def Let_def)

lemma assignSolverDims_other:
  "assignSolverDims L n lc w = Inr L' \<Longrightarrow> m \<noteq> n \<Longrightarrow> nodes L' m = nodes L m"
  by (auto simp: assignSolverDims_def hiddenDims_def visibleDims_def Let_def
      nodes_setSolverDim_other split: if_splits option.splits sum.splits)

lemma assignSolverDims_dom:
  "assignSolverDims L n lc w = Inr L' \<Longrightarrow>
   dom (props (solverDims (nodes L' n))) =
     dom (props (solverDims (nodes L n))) \<union> {''x'', ''y'', ''width'', ''height''}"
  by (auto simp: assignSolverDims_def hiddenDims_def visibleDims_def Let_def
      props_setSolverDim split: if_splits option.splits sum.splits)

lemma assignSolverDims_hidden:
  "assignSolverDims L n lc w = Inr L' \<Longrightarrow> \<not> isVisible (nodes L n) \<Longrightarrow>
   hiddenRect L n (solverDims (nodes L' n))"
  by (auto simp: assignSolverDims_def hiddenDims_def hiddenRect_def Let_def
      props_setSolverDim setSolverDim_def updNode_def split: option.splits sum.splits)

lemma walk_Tree_cases:
  assumes "computeSolverNormalizedPositions L (Tree n kids) lc z e = Inr L'"
    and "instanceofOmTreeNode (nodes L n)"
  obtains L2 L3 z' e' w where
    "z' = (if \<not> z then n = zoomedElement L else z)"
    "e' = snd (enterNode L n z' e)"
    "w = (case e' of Some p \<Rightarrow> p | None \<Rightarrow> n)"
    "L2 = preserveDims (fst (enterNode L n z' e)) n"
    "assignSolverDims L2 n lc w = Inr L3"
    "childrenLoop L3 kids lc z' e' = Inr L'"
  using assms by (auto simp: Let_def split: sum.splits)

lemma childrenLoop_Cons_cases:
  assumes "childrenLoop L (child # rest) lc z e = Inr L'"
  obtains (walked) L1 where
      "\<not> isInputOrOutput (nodes L (nodeId child)) \<or> \<not> minimized (nodes L (nodeId child))"
      "computeSolverNormalizedPositions L child lc z
         (case filterParent (nodes L (nodeId child)) of Some p \<Rightarrow> Some p | None \<Rightarrow> e) = Inr L1"
      "childrenLoop L1 rest
         (if e = None then jsadd lc (numLeaves (nodes L1 (nodeId child))) else lc) z e = Inr L'"
    | (skipped)
      "\<not> (\<not> isInputOrOutput (nodes L (nodeId child)) \<or> \<not> minimized (nodes L (nodeId child)))"
      "childrenLoop L rest lc z e = Inr L'"
  using assms by (auto split: sum.splits if_splits)

lemma walk_untouched:
  "computeSolverNormalizedPositions L t lc z e = Inr L' \<Longrightarrow>
     m \<notin> set (visited (nodes L) t) \<Longrightarrow> nodes L' m = nodes L m"
  "childrenLoop L ts lc z e = Inr L' \<Longrightarrow>
     m \<notin> set (visitedChildren (nodes L) ts) \<Longrightarrow> nodes L' m = nodes L m"
proof (induction L t lc z e and L ts lc z e arbitrary: L' and L'
    rule: computeSolverNormalizedPositions_childrenLoop.induct)
  case (1 L n kids lc z e)
  show ?case
  proof (cases "instanceofOmTreeNode (nodes L n)")
    case False
    with "1.prems" show ?thesis by simp
  next
    case True
    from "1.prems"(1) True obtain L2 L3 z' e' w where
      d: "z' = (if \<not> z then n = zoomedElement L else z)"
         "e' = snd (enterNode L n z' e)"
         "w = (case e' of Some p \<Rightarrow> p | None \<Rightarrow> n)"
         "L2 = preserveDims (fst (enterNode L n z' e)) n"
      and a: "assignSolverDims L2 n lc w = Inr L3"
      and c: "childrenLoop L3 kids lc z' e' = Inr L'"
      by (rule walk_Tree_cases)
    have e2: "erase L2 = erase L"
      by (simp add: d erase_preserveDims erase_enterNode)
    have e3: "erase L3 = erase L"
      using erase_assignSolverDims [OF a] e2 by simp
    from "1.prems"(2) True have mn: "m \<noteq> n" and mk: "m \<notin> set (visitedChildren (nodes L) kids)"
      by auto
    have mk3: "m \<notin> set (visitedChildren (nodes L3) kids)"
      using mk visited_walk(2) [OF e3] by simp
    have "nodes L' m = nodes L3 m"
      using "1.IH" [OF _ d(1) refl refl refl _ _ mk3] True a c
      by (simp add: d)
    also have "\<dots> = nodes L2 m"
      using assignSolverDims_other [OF a mn] .
    also have "\<dots> = nodes L m"
      using mn by (simp add: d nodes_preserveDims_other nodes_enterNode)
    finally show ?thesis .
  qed
next
  case (2 L lc z e)
  then show ?case by simp
next
  case (3 L child rest lc z e)
  from "3.prems"(1) show ?case
  proof (cases rule: childrenLoop_Cons_cases)
    case (walked L1)
    have e1: "erase L1 = erase L"
      using erase_walk(1) [OF walked(2)] .
    from "3.prems"(2) walked(1)
    have mc: "m \<notin> set (visited (nodes L) child)"
      and mr: "m \<notin> set (visitedChildren (nodes L) rest)" by auto
    have mr1: "m \<notin> set (visitedChildren (nodes L1) rest)"
      using mr visited_walk(2) [OF e1] by simp
    have "nodes L' m = nodes L1 m"
      using "3.IH"(2) [OF walked(1) walked(2) walked(3) mr1] .
    also have "\<dots> = nodes L m"
      using "3.IH"(1) [OF walked(1) walked(2) mc] .
    finally show ?thesis .
  next
    case skipped
    with "3.prems"(2) have "m \<notin> set (visitedChildren (nodes L) rest)" by auto
    with "3.IH"(3) [OF skipped(1) skipped(2)] show ?thesis .
  qed
qed

lemma walk_dom_mono:
  "computeSolverNormalizedPositions L t lc z e = Inr L' \<Longrightarrow>
     dom (props (solverDims (nodes L m))) \<subseteq> dom (props (solverDims (nodes L' m)))"
  "childrenLoop L ts lc z e = Inr L' \<Longrightarrow>
     dom (props (solverDims (nodes L m))) \<subseteq> dom (props (solverDims (nodes L' m)))"
proof (induction L t lc z e and L ts lc z e arbitrary: L' and L'
    rule: computeSolverNormalizedPositions_childrenLoop.induct)
  case (1 L n kids lc z e)
  show ?case
  proof (cases "instanceofOmTreeNode (nodes L n)")
    case False
    with "1.prems" show ?thesis by simp
  next
    case True
    from "1.prems"(1) True obtain L2 L3 z' e' w where
      d: "z' = (if \<not> z then n = zoomedElement L else z)"
         "e' = snd (enterNode L n z' e)"
         "w = (case e' of Some p \<Rightarrow> p | None \<Rightarrow> n)"
         "L2 = preserveDims (fst (enterNode L n z' e)) n"
      and a: "assignSolverDims L2 n lc w = Inr L3"
      and c: "childrenLoop L3 kids lc z' e' = Inr L'"
      by (rule walk_Tree_cases)
    have "props (solverDims (nodes L m)) = props (solverDims (nodes L2 m))"
      by (simp add: d props_preserveDims nodes_enterNode)
    moreover have "dom (props (solverDims (nodes L2 m))) \<subseteq> dom (props (solverDims (nodes L3 m)))"
    proof (cases "m = n")
      case True
      then show ?thesis using assignSolverDims_dom [OF a] by auto
    next
      case False
      then show ?thesis using assignSolverDims_other [OF a] by simp
    qed
    moreover have "dom (props (solverDims (nodes L3 m))) \<subseteq> dom (props (solverDims (nodes L' m)))"
      using "1.IH" [OF _ d(1) refl refl refl] True a c by (simp add: d)
    ultimately show ?thesis by simp
  qed
next
  case (2 L lc z e)
  then show ?case by simp
next
  case (3 L child rest lc z e)
  from "3.prems"(1) show ?case
  proof (cases rule: childrenLoop_Cons_cases)
    case (walked L1)
    show ?thesis
      using "3.IH"(1) [OF walked(1) walked(2)] "3.IH"(2) [OF walked(1) walked(2) walked(3)]
      by (rule subset_trans)
  next
    case skipped
    then show ?thesis using "3.IH"(3) by simp
  qed
qed

lemma walk_assigned:
  "computeSolverNormalizedPositions L t lc z e = Inr L' \<Longrightarrow>
     m \<in> set (visited (nodes L) t) \<Longrightarrow>
     {''x'', ''y'', ''width'', ''height''} \<subseteq> dom (props (solverDims (nodes L' m)))"
  "childrenLoop L ts lc z e = Inr L' \<Longrightarrow>
     m \<in> set (visitedChildren (nodes L) ts) \<Longrightarrow>
     {''x'', ''y'', ''width'', ''height''} \<subseteq> dom (props (solverDims (nodes L' m)))"
proof (induction L t lc z e and L ts lc z e arbitrary: L' and L'
    rule: computeSolverNormalizedPositions_childrenLoop.induct)
  case (1 L n kids lc z e)
  from "1.prems"(2) have om: "instanceofOmTreeNode (nodes L n)"
    by (auto split: if_splits)
  from "1.prems"(1) om obtain L2 L3 z' e' w where
    d: "z' = (if \<not> z then n = zoomedElement L else z)"
       "e' = snd (enterNode L n z' e)"
       "w = (case e' of Some p \<Rightarrow> p | None \<Rightarrow> n)"
       "L2 = preserveDims (fst (enterNode L n z' e)) n"
    and a: "assignSolverDims L2 n lc w = Inr L3"
    and c: "childrenLoop L3 kids lc z' e' = Inr L'"
    by (rule walk_Tree_cases)
  have e3: "erase L3 = erase L"
    using erase_assignSolverDims [OF a] by (simp add: d erase_preserveDims erase_enterNode)
  show ?case
  proof (cases "m = n")
    case True
    have "{''x'', ''y'', ''width'', ''height''} \<subseteq> dom (props (solverDims (nodes L3 n)))"
      using assignSolverDims_dom [OF a] by auto
    with walk_dom_mono(2) [OF c, of n] True show ?thesis by blast
  next
    case False
    with "1.prems"(2) om have "m \<in> set (visitedChildren (nodes L) kids)" by simp
    then have "m \<in> set (visitedChildren (nodes L3) kids)"
      using visited_walk(2) [OF e3] by simp
    then show ?thesis
      using "1.IH" [OF _ d(1) refl refl refl] om a c by (simp add: d)
  qed
next
  case (2 L lc z e)
  then show ?case by simp
next
  case (3 L child rest lc z e)
  from "3.prems"(1) show ?case
  proof (cases rule: childrenLoop_Cons_cases)
    case (walked L1)
    have e1: "erase L1 = erase L"
      using erase_walk(1) [OF walked(2)] .
    from "3.prems"(2) walked(1)
    consider "m \<in> set (visited (nodes L) child)" | "m \<in> set (visitedChildren (nodes L) rest)"
      by auto
    then show ?thesis
    proof cases
      case 1
      from "3.IH"(1) [OF walked(1) walked(2) 1] walk_dom_mono(2) [OF walked(3), of m]
      show ?thesis by blast
    next
      case 2
      then have "m \<in> set (visitedChildren (nodes L1) rest)"
        using visited_walk(2) [OF e1] by simp
      then show ?thesis
        using "3.IH"(2) [OF walked(1) walked(2) walked(3)] by simp
    qed
  next
    case skipped
    with "3.prems"(2) have "m \<in> set (visitedChildren (nodes L) rest)" by auto
    with "3.IH"(3) [OF skipped(1) skipped(2)] show ?thesis .
  qed
qed

lemma walk_hidden:
  "computeSolverNormalizedPositions L t lc z e = Inr L' \<Longrightarrow>
     m \<in> set (visited (nodes L) t) \<Longrightarrow> distinct (visited (nodes L) t) \<Longrightarrow>
     \<not> isVisible (nodes L m) \<Longrightarrow> hiddenRect L m (solverDims (nodes L' m))"
  "childrenLoop L ts lc z e = Inr L' \<Longrightarrow>
     m \<in> set (visitedChildren (nodes L) ts) \<Longrightarrow> distinct (visitedChildren (nodes L) ts) \<Longrightarrow>
     \<not> isVisible (nodes L m) \<Longrightarrow> hiddenRect L m (solverDims (nodes L' m))"
proof (induction L t lc z e and L ts lc z e arbitrary: L' and L'
    rule: computeSolverNormalizedPositions_childrenLoop.induct)
  case (1 L n kids lc z e)
  from "1.prems"(2) have om: "instanceofOmTreeNode (nodes L n)"
    by (auto split: if_splits)
  from "1.prems"(1) om obtain L2 L3 z' e' w where
    d: "z' = (if \<not> z then n = zoomedElement L else z)"
       "e' = snd (enterNode L n z' e)"
       "w = (case e' of Some p \<Rightarrow> p | None \<Rightarrow> n)"
       "L2 = preserveDims (fst (enterNode L n z' e)) n"
    and a: "assignSolverDims L2 n lc w = Inr L3"
    and c: "childrenLoop L3 kids lc z' e' = Inr L'"
    by (rule walk_Tree_cases)
  have e2: "erase L2 = erase L"
    by (simp add: d erase_preserveDims erase_enterNode)
  have e3: "erase L3 = erase L"
    using erase_assignSolverDims [OF a] e2 by simp
  have vk: "visitedChildren (nodes L3) kids = visitedChildren (nodes L) kids"
    using visited_walk(2) [OF e3] .
  from "1.prems"(3) om have nk: "n \<notin> set (visitedChildren (nodes L) kids)"
    and dk: "distinct (visitedChildren (nodes L) kids)" by auto
  show ?case
  proof (cases "m = n")
    case True
    have "\<not> isVisible (nodes L2 n)"
      using "1.prems"(4) True erase_node_fields(5) [OF e2] by simp
    from assignSolverDims_hidden [OF a this]
    have "hiddenRect L n (solverDims (nodes L3 n))"
      using hiddenRect_erase [OF e2] by simp
    moreover have "nodes L' n = nodes L3 n"
      using walk_untouched(2) [OF c] nk vk by simp
    ultimately show ?thesis using True by simp
  next
    case False
    with "1.prems"(2) om have "m \<in> set (visitedChildren (nodes L3) kids)"
      using vk by simp
    moreover have "distinct (visitedChildren (nodes L3) kids)"
      using dk vk by simp
    moreover have "\<not> isVisible (nodes L3 m)"
      using "1.prems"(4) erase_node_fields(5) [OF e3] by simp
    ultimately have "hiddenRect L3 m (solverDims (nodes L' m))"
      using "1.IH" [OF _ d(1) refl refl refl] om a c by (simp add: d)
    then show ?thesis
      using hiddenRect_erase [OF e3] by simp
  qed
next
  case (2 L lc z e)
  then show ?case by simp
next
  case (3 L child rest lc z e)
  from "3.prems"(1) show ?case
  proof (cases rule: childrenLoop_Cons_cases)
    case (walked L1)
    have e1: "erase L1 = erase L"
      using erase_walk(1) [OF walked(2)] .
    have vr: "visitedChildren (nodes L1) rest = visitedChildren (nodes L) rest"
      using visited_walk(2) [OF e1] .
    from "3.prems"(3) walked(1)
    have dc: "distinct (visited (nodes L) child)"
      and dr: "distinct (visitedChildren (nodes L) rest)"
      and dj: "set (visited (nodes L) child) \<inter> set (visitedChildren (nodes L) rest) = {}"
      by auto
    from "3.prems"(2) walked(1)
    consider "m \<in> set (visited (nodes L) child)" | "m \<in> set (visitedChildren (nodes L) rest)"
      by auto
    then show ?thesis
    proof cases
      case 1
      have "hiddenRect L m (solverDims (nodes L1 m))"
        using "3.IH"(1) [OF walked(1) walked(2) 1 dc "3.prems"(4)] .
      moreover have "nodes L' m = nodes L1 m"
        using walk_untouched(2) [OF walked(3)] 1 dj vr by auto
      ultimately show ?thesis by simp
    next
      case 2
      have "\<not> isVisible (nodes L1 m)"
        using "3.prems"(4) erase_node_fields(5) [OF e1] by simp
      then have "hiddenRect L1 m (solverDims (nodes L' m))"
        using "3.IH"(2) [OF walked(1) walked(2) walked(3)] 2 dr vr by simp
      then show ?thesis
        using hiddenRect_erase [OF e1] by simp
    qed
  next
    case skipped
    with "3.prems"(2,3) have "m \<in> set (visitedChildren (nodes L) rest)"
      "distinct (visitedChildren (nodes L) rest)" by auto
    with "3.IH"(3) [OF skipped(1) skipped(2)] "3.prems"(4) show ?thesis by simp
  qed
qed

lemma visited_exTreeLayout:
  "visited (nodes exTreeLayout) (root exTreeLayout) = [0, 1, 2, 4]"
  by (simp add: exTreeLayout_def exLayout_def exTreeNodes_def exVariable_def exNode_def)

lemma exTreeLayout_returns:
  "\<exists>L'. computeSolverNormalizedPositions exTreeLayout (root exTreeLayout) (Fin 0) False None
           = Inr L'"
  by (simp add: exTreeLayout_def exLayout_def exTreeNodes_def exVariable_def exNode_def
      enterNode_def preserveDims_def updNode_def assignSolverDims_def hiddenDims_def
      visibleDims_def setSolverDim_def colAt_def rootId_def Let_def isSubsystemOrRoot_def)


subsection \<open>The rectangle of every visible node\<close>


























lemma leavesAddUp_Cons:
  "leavesAddUp L (x # xs) \<Longrightarrow> leavesAddUp L xs"
  by (simp add: leavesAddUp_def)
















lemma leaves_exTreeLayout:
  "leaves exTreeLayout 0 = 2" "leaves exTreeLayout 1 = 1" "leaves exTreeLayout 2 = 0"
  "leaves exTreeLayout 4 = 1"
  by (simp_all add: leaves_def exTreeLayout_def exTreeNodes_def exVariable_def exNode_def)

lemma walkedChildren_exTreeLayout:
  "walkedChildren exTreeLayout [Tree 1 [], Tree 2 [], Tree 3 [], Tree 4 []] =
     [Tree 1 [], Tree 2 [], Tree 4 []]"
  "walkedChildren exTreeLayout [] = []"
  by (simp_all add: walkedChildren_def exTreeLayout_def exTreeNodes_def exVariable_def exNode_def)


lemma countsOK_exTreeLayout:
  "countsOK exTreeLayout 0" "countsOK exTreeLayout 1" "countsOK exTreeLayout 2"
  "countsOK exTreeLayout 4"
  by (simp_all add: countsOK_def leaves_def exTreeLayout_def exTreeNodes_def exVariable_def
      exNode_def)


subsection \<open>Frame and coverage of the walk\<close>

text \<open>
  C9, as the code has it. If the solver walk returns, every node's primary rectangle
  \<open>draw.dims\<close> is what it was, every node the walk visits has \<open>x\<close>, \<open>y\<close>, \<open>width\<close>
  and \<open>height\<close> of its \<open>draw.solverDims\<close> assigned, and a node the walk does not visit
  is left as it was, solver rectangle included. The visited nodes are the instances of
  \<open>OmTreeNode\<close> reached from the root through children that are not minimized inputs or
  outputs.
\<close>

theorem solver_walk_frame:
  assumes "computeSolverNormalizedPositions L t lc z e = Inr L'"
  shows "(\<forall>n. dims (nodes L' n) = dims (nodes L n))
     \<and> (\<forall>n\<in>set (visited (nodes L) t).
           {''x'', ''y'', ''width'', ''height''} \<subseteq> dom (props (solverDims (nodes L' n))))
     \<and> (\<forall>n. n \<notin> set (visited (nodes L) t) \<longrightarrow> nodes L' n = nodes L n)"
  using erase_node_fields(13) [OF erase_walk(1) [OF assms]] walk_assigned(1) [OF assms]
    walk_untouched(1) [OF assms]
  by blast

theorem solver_walk_frame_witness:
  "\<exists>L'. computeSolverNormalizedPositions exTreeLayout (root exTreeLayout) (Fin 0) False None
          = Inr L'
     \<and> dims (nodes L' 0) = dims (nodes exTreeLayout 0)
     \<and> {''x'', ''y'', ''width'', ''height''} \<subseteq> dom (props (solverDims (nodes L' 0)))
     \<and> {''x'', ''y'', ''width'', ''height''} \<subseteq> dom (props (solverDims (nodes L' 4)))
     \<and> nodes L' 3 = nodes exTreeLayout 3"
proof -
  from exTreeLayout_returns obtain L' where
    r: "computeSolverNormalizedPositions exTreeLayout (root exTreeLayout) (Fin 0) False None
          = Inr L'" by blast
  from solver_walk_frame [OF r] show ?thesis
    using r by (simp add: visited_exTreeLayout)
qed

text \<open>
  C9 as stated fails: in the component with four variables the third one, a minimized
  output, is a node of the tree, and after the walk its solver rectangle still has no
  coordinate.
\<close>

theorem solverDims_unassigned_counterexample:
  "3 \<in> set (treeIds (root exTreeLayout))
   \<and> (\<exists>L'. computeSolverNormalizedPositions exTreeLayout (root exTreeLayout) (Fin 0) False None
             = Inr L'
         \<and> props (solverDims (nodes L' 3)) = Map.empty)"
proof -
  from exTreeLayout_returns obtain L' where
    r: "computeSolverNormalizedPositions exTreeLayout (root exTreeLayout) (Fin 0) False None
          = Inr L'" by blast
  have "nodes L' 3 = nodes exTreeLayout 3"
    using walk_untouched(1) [OF r, of 3] by (simp add: visited_exTreeLayout)
  moreover have "props (solverDims (nodes exTreeLayout 3)) = Map.empty"
    by (simp add: exTreeLayout_def exTreeNodes_def exVariable_def newDimensionsPx_def
        props_newDimensions fun_eq_iff)
  moreover have "3 \<in> set (treeIds (root exTreeLayout))"
    by (simp add: exTreeLayout_def)
  ultimately show ?thesis using r by auto
qed

subsection \<open>Nodes that are not visible\<close>

text \<open>
  C5. Let the walk return, and let \<open>n\<close> be a node it visits (once) that is not
  visible. Then \<open>n\<close> has a parent component, and after the walk the solver rectangle of
  \<open>n\<close> sits at that parent: its \<open>x\<close> is the location of the primary-tree column after
  the parent component's depth divided by the primary-tree width, its \<open>y\<close> is the
  parent component's primary \<open>y\<close>, and its width and height are both the fixed
  \<open>1e-6\<close>, which is greater than zero.
\<close>

theorem hidden_node_rectangle:
  assumes "computeSolverNormalizedPositions L t lc z e = Inr L'"
    and "n \<in> set (visited (nodes L) t)" and "distinct (visited (nodes L) t)"
    and "\<not> isVisible (nodes L n)"
  shows "\<exists>pc c. parentComponent (nodes L n) = Some pc
      \<and> colAt (cols L) (depth (nodes L pc) + 1) = Inr c
      \<and> props (solverDims (nodes L' n)) ''x'' =
          Some (Num (jsdiv (location c) (partitionTreeWidth L)))
      \<and> props (solverDims (nodes L' n)) ''y'' = Some (jsget (props (dims (nodes L' pc))) ''y'')
      \<and> props (solverDims (nodes L' n)) ''width'' = Some (Num (Fin (1 / 1000000)))
      \<and> props (solverDims (nodes L' n)) ''height'' = Some (Num (Fin (1 / 1000000)))
      \<and> (0 :: real) < 1 / 1000000"
  using walk_hidden(1) [OF assms] erase_node_fields(13) [OF erase_walk(1) [OF assms(1)]]
  by (auto simp: hiddenRect_def)

theorem hidden_node_rectangle_witness:
  "\<exists>L'. computeSolverNormalizedPositions exTreeLayout (root exTreeLayout) (Fin 0) False None
          = Inr L'
      \<and> props (solverDims (nodes L' 2)) ''x'' = Some (Num (Fin (1 / 3)))
      \<and> props (solverDims (nodes L' 2)) ''y'' = Some (Num (Fin 0))
      \<and> props (solverDims (nodes L' 2)) ''width'' = Some (Num (Fin (1 / 1000000)))
      \<and> props (solverDims (nodes L' 2)) ''height'' = Some (Num (Fin (1 / 1000000)))"
proof -
  from exTreeLayout_returns obtain L' where
    r: "computeSolverNormalizedPositions exTreeLayout (root exTreeLayout) (Fin 0) False None
          = Inr L'" by blast
  have v: "2 \<in> set (visited (nodes exTreeLayout) (root exTreeLayout))"
    "distinct (visited (nodes exTreeLayout) (root exTreeLayout))"
    by (simp_all add: visited_exTreeLayout)
  have h: "\<not> isVisible (nodes exTreeLayout 2)"
    by (simp add: exTreeLayout_def exTreeNodes_def exVariable_def)
  have d: "dims (nodes L' 0) = dims (nodes exTreeLayout 0)"
    using erase_node_fields(13) [OF erase_walk(1) [OF r]] .
  from hidden_node_rectangle [OF r v h] show ?thesis
    using r d
    by (auto simp: exTreeLayout_def exLayout_def exTreeNodes_def exVariable_def exNode_def
        colAt_def props_exDims)
qed

subsection \<open>Zero denominators\<close>




subsection \<open>Rectangles in the unit square, heights that add up, one rectangle per collapsed subtree\<close>




end
